theory Spec2Isabelle
  imports Complex_Main
begin

section \<open>NCGL: the Noisy Complex Ginzburg-Landau solver of \<open>NCGL.py\<close>\<close>

text \<open>
  A shallow embedding of the class \<open>NCGL\<close>. Python floats and numpy's float64 are
  idealised as \<^typ>\<open>real\<close>, complex128 as \<^typ>\<open>complex\<close>: rounding and overflow are
  outside the model, except for the two computations whose result depends on rounding, the
  temporal interpolation and the accumulation of the elapsed time, which are transcribed a
  second time with binary64 rounding. A numpy array entry that can be non-finite (the result of a division
  by zero, which numpy reports by a warning only) is a \<^typ>\<open>complex option\<close>, with
  \<open>None\<close> for NaN; every arithmetic operation propagates it, as IEEE arithmetic does.
  Python exceptions are values of \<open>py_error\<close>, and a function that can raise returns
  \<open>py_error + 'a\<close>.
\<close>

subsection \<open>Python values and errors\<close>

datatype py_error =
  TypeError | ValueError | IndexError | ZeroDivisionError | OverflowError | AttributeError

text \<open>Sequencing of calls that may raise: the first exception ends the computation.\<close>

definition bindE :: "py_error + 'a \<Rightarrow> ('a \<Rightarrow> py_error + 'b) \<Rightarrow> py_error + 'b" where
  "bindE m f = (case m of Inl e \<Rightarrow> Inl e | Inr x \<Rightarrow> f x)"

text \<open>Indexing of a list or of the first axis of an array: \<open>xs[i]\<close>, negative indices
  counting from the end, \<open>IndexError\<close> out of range.\<close>

definition py_index :: "'a list \<Rightarrow> int \<Rightarrow> py_error + 'a" where
  "py_index xs i =
     (if 0 \<le> i \<and> i < int (length xs) then Inr (xs ! nat i)
      else if i < 0 \<and> - int (length xs) \<le> i then Inr (xs ! nat (int (length xs) + i))
      else Inl IndexError)"

text \<open>\<open>int(x)\<close> on a float truncates towards zero.\<close>

definition py_int :: "real \<Rightarrow> int" where
  "py_int x = (if 0 \<le> x then \<lfloor>x\<rfloor> else \<lceil>x\<rceil>)"

subsection \<open>The object\<close>

type_synonym cell = "complex option"
type_synonym field = "cell list list"
type_synonym tensor = "real list list list"

text \<open>The attributes of an \<open>NCGL\<close> object. \<open>a\<close>, \<open>nr1\<close>, \<open>nr2\<close> and \<open>maxTime\<close> do not
  exist until \<open>getInitialCondition\<close> and \<open>solveRKF45\<close> assign them: \<open>None\<close> until then.\<close>

record ncgl =
  c1 :: real
  c2 :: real
  a0 :: real
  h :: real
  ic :: string
  msize :: int
  dim :: nat
  sigma_r :: real
  noiseType :: string
  noiseSpeed :: real
  noiseArgs :: "string \<rightharpoonup> real"
  a :: "field option"
  nr1 :: "tensor option"
  nr2 :: "tensor option"
  maxTime :: "real option"

text \<open>\<open>__init__\<close>: stores its arguments, checks nothing and raises nothing.\<close>

definition init ::
  "real \<Rightarrow> real \<Rightarrow> real \<Rightarrow> int \<Rightarrow> string \<Rightarrow> real \<Rightarrow> real \<Rightarrow> string \<Rightarrow> (string \<rightharpoonup> real) option \<Rightarrow> ncgl"
where
  "init c1' c2' h' msize' ic' sigma_r' noiseSpeed' noiseType' noiseArgs' =
     \<lparr> c1 = c1', c2 = c2', a0 = 0.01, h = h', ic = ic', msize = msize', dim = 2,
       sigma_r = sigma_r', noiseType = noiseType', noiseSpeed = noiseSpeed',
       noiseArgs = (case noiseArgs' of None \<Rightarrow> Map.empty | Some m \<Rightarrow> m),
       a = None, nr1 = None, nr2 = None, maxTime = None \<rparr>"

subsection \<open>The reaction term\<close>

text \<open>\<open>reaction(self, a, t)\<close>: \<open>a - (1+1j*self.c2)*(np.abs(a)**2)*a\<close>, on one amplitude.\<close>

definition reaction :: "ncgl \<Rightarrow> complex \<Rightarrow> real \<Rightarrow> complex" where
  "reaction self z t = z - (1 + \<i> * of_real (c2 self)) * of_real ((cmod z)\<^sup>2) * z"

text \<open>The same expression on an array is elementwise.\<close>

definition reaction_field :: "ncgl \<Rightarrow> field \<Rightarrow> real \<Rightarrow> field" where
  "reaction_field self state t = map (map (map_option (\<lambda>z. reaction self z t))) state"

subsection \<open>The single-amplitude integrator with noise\<close>

text \<open>\<open>__interpolate1D(self, noise, t)\<close>.\<close>

definition interpolate1D :: "complex list \<Rightarrow> real \<Rightarrow> py_error + complex" where
  "interpolate1D noise t =
     (let p1 = \<lfloor>t\<rfloor>; p2 = \<lceil>t\<rceil>
      in if p1 = p2 then py_index noise p1
         else bindE (py_index noise p1) (\<lambda>n1.
              bindE (py_index noise p2) (\<lambda>n2.
              Inr (n1 * of_real \<bar>t - of_int p1\<bar> / of_real \<bar>of_int (p1 - p2)\<bar>
                 + n2 * of_real \<bar>t - of_int p2\<bar> / of_real \<bar>of_int (p1 - p2)\<bar>))))"

text \<open>\<open>np.gradient\<close> of a one-dimensional array with unit spacing: one-sided differences
  at the two ends, central differences inside, \<open>ValueError\<close> below two elements.\<close>

definition gradient1 :: "('a \<Rightarrow> 'a \<Rightarrow> 'a) \<Rightarrow> ('a \<Rightarrow> 'a) \<Rightarrow> 'a list \<Rightarrow> py_error + 'a list" where
  "gradient1 sub half xs =
     (let n = length xs
      in if n < 2 then Inl ValueError
         else Inr (map (\<lambda>i. if i = 0 then sub (xs ! 1) (xs ! 0)
                             else if i = n - 1 then sub (xs ! (n - 1)) (xs ! (n - 2))
                             else half (sub (xs ! (i + 1)) (xs ! (i - 1)))) [0..<n]))"

text \<open>One step of the loop of \<open>getNoisyChainedSingleReaction\<close>: the four stages and the
  new amplitude.\<close>

definition noisy_rk4_step :: "ncgl \<Rightarrow> complex list \<Rightarrow> real \<Rightarrow> nat \<Rightarrow> complex \<Rightarrow> py_error + complex" where
  "noisy_rk4_step self eta dt i a_t =
     (let t = real i * dt in
      if noiseType self = ''multiplicative'' then
        bindE (interpolate1D eta (real i)) (\<lambda>e1.
        let k1 = reaction self a_t t + of_real (sigma_r self) * a_t * e1 in
        bindE (interpolate1D eta (real i + 0.5)) (\<lambda>e2.
        let k2 = reaction self (a_t + of_real dt * k1 / 2) (t + dt / 2)
                 + of_real (sigma_r self) * (a_t + of_real dt * k1 / 2) * e2 in
        bindE (interpolate1D eta (real i + 0.5)) (\<lambda>e3.
        let k3 = reaction self (a_t + of_real dt * k2 / 2) (t + dt / 2)
                 + of_real (sigma_r self) * (a_t + of_real dt * k2 / 2) * e3 in
        bindE (interpolate1D eta (real i + 1)) (\<lambda>e4.
        let k4 = reaction self (a_t + of_real dt * k3) (t + dt)
                 + of_real (sigma_r self) * (a_t + of_real dt * k3) * e4 in
        Inr (a_t + of_real dt * (k1 + 2 * k2 + 2 * k3 + k4) / 6)))))
      else
        bindE (interpolate1D eta (real i)) (\<lambda>e1.
        let k1 = reaction self a_t t + of_real (sigma_r self) * e1 in
        bindE (interpolate1D eta (real i + 0.5)) (\<lambda>e2.
        let k2 = reaction self (a_t + of_real dt * k1 / 2) (t + dt / 2)
                 + of_real (sigma_r self) * e2 in
        bindE (interpolate1D eta (real i + 0.5)) (\<lambda>e3.
        let k3 = reaction self (a_t + of_real dt * k2 / 2) (t + dt / 2)
                 + of_real (sigma_r self) * e3 in
        bindE (interpolate1D eta (real i + 1)) (\<lambda>e4.
        let k4 = reaction self (a_t + of_real dt * k3) (t + dt)
                 + of_real (sigma_r self) * e4 in
        Inr (a_t + of_real dt * (k1 + 2 * k2 + 2 * k3 + k4) / 6))))))"

text \<open>\<open>for i in range(nit)\<close>, from step \<open>i\<close> on: \<open>n\<close> steps remain.\<close>

fun noisy_loop :: "ncgl \<Rightarrow> complex list \<Rightarrow> real \<Rightarrow> nat \<Rightarrow> nat \<Rightarrow> complex \<Rightarrow> py_error + complex list" where
  "noisy_loop self eta dt i 0 a_t = Inr []"
| "noisy_loop self eta dt i (Suc n) a_t =
     bindE (noisy_rk4_step self eta dt i a_t) (\<lambda>a_next.
     bindE (noisy_loop self eta dt (Suc i) n a_next) (\<lambda>rest. Inr (a_t # rest)))"

text \<open>\<open>getNoisyChainedSingleReaction(self, a0, beta, dt, nit)\<close>. The draw of
  \<open>np.random.rand()\<close> and the two arrays that \<open>cNoise.cNoise(beta, shape=(nit+2,), std=1)\<close>
  returns (the generator is not part of this file) are the arguments \<open>rnd\<close>, \<open>noise_re\<close> and
  \<open>noise_im\<close>; adding arrays of different lengths raises \<open>ValueError\<close>.\<close>

definition getNoisyChainedSingleReaction ::
  "ncgl \<Rightarrow> real \<Rightarrow> real list \<Rightarrow> real list \<Rightarrow> complex option \<Rightarrow> real \<Rightarrow> nat \<Rightarrow> py_error + complex list"
where
  "getNoisyChainedSingleReaction self rnd noise_re noise_im a0_arg dt nit =
     (let delta = 1 / 10 ^ 6 * (rnd - 0.5);
          a_t = (case a0_arg of None \<Rightarrow> of_real (a0 self + delta) | Some z \<Rightarrow> z)
      in if length noise_re \<noteq> length noise_im then Inl ValueError
         else bindE (gradient1 (-) (\<lambda>z. z / 2) (map2 Complex noise_re noise_im)) (\<lambda>eta.
              noisy_loop self eta dt 0 nit a_t))"

subsection \<open>Temporal interpolation of the noise buffer\<close>

text \<open>\<open>np.linspace(0, 1, n)\<close>: \<open>arange(n) * (1 / (n - 1))\<close>, and \<open>[0.]\<close> for \<open>n = 1\<close>.\<close>

definition linspace01 :: "nat \<Rightarrow> real list" where
  "linspace01 n = map (\<lambda>i. if n = 1 then 0 else real i * (1 / real (n - 1))) [0..<n]"

text \<open>The blend of the \<open>else\<close> branch of \<open>interpolateNoise\<close>, on two frames:
  \<open>np.abs(t1-time)*m1/(np.abs(t2-t1)) + np.abs(t2-time)*m2/(np.abs(t2-t1))\<close>.\<close>

definition blend :: "real \<Rightarrow> real \<Rightarrow> real \<Rightarrow> real list list \<Rightarrow> real list list \<Rightarrow> real list list" where
  "blend t1 t2 time m1 m2 =
     map2 (map2 (\<lambda>x y. \<bar>t1 - time\<bar> * x / \<bar>t2 - t1\<bar> + \<bar>t2 - time\<bar> * y / \<bar>t2 - t1\<bar>)) m1 m2"

text \<open>\<open>interpolateNoise(self, time)\<close>: the pair \<open>(mr3, md3)\<close> of the rate view \<open>nr1\<close> and the
  raw view \<open>nr2\<close>.\<close>

definition interpolateNoise :: "ncgl \<Rightarrow> real \<Rightarrow> py_error + (real list list \<times> real list list)" where
  "interpolateNoise self time =
     (case nr1 self of None \<Rightarrow> Inl AttributeError | Some r1 \<Rightarrow>
        let t = linspace01 (length r1);
            p1 = \<lfloor>(of_int (int (length r1) - 1)) * time\<rfloor>;
            p2 = \<lceil>(of_int (int (length r1) - 1)) * time\<rceil>
        in bindE (py_index t p1) (\<lambda>t1.
           bindE (py_index t p2) (\<lambda>t2.
           bindE (py_index r1 p1) (\<lambda>mr1.
           bindE (py_index r1 p2) (\<lambda>mr2.
           case nr2 self of None \<Rightarrow> Inl AttributeError | Some r2 \<Rightarrow>
           bindE (py_index r2 p1) (\<lambda>md1.
           bindE (py_index r2 p2) (\<lambda>md2.
           if \<bar>t1 - t2\<bar> < 1 / 10 ^ 15 then Inr (mr1, md1)
           else Inr (blend t1 t2 time mr1 mr2, blend t1 t2 time md1 md2))))))))"

subsection \<open>Arithmetic on array entries\<close>

text \<open>An operation on two entries is non-finite as soon as one of them is.\<close>

definition lift2 :: "('a \<Rightarrow> 'b \<Rightarrow> 'c) \<Rightarrow> 'a option \<Rightarrow> 'b option \<Rightarrow> 'c option" where
  "lift2 f x y =
     (case x of None \<Rightarrow> None | Some u \<Rightarrow> (case y of None \<Rightarrow> None | Some v \<Rightarrow> Some (f u v)))"

text \<open>Division of a complex entry by a real one. numpy does not raise on a zero divisor:
  it warns and stores NaN or an infinity, which are not told apart here. An infinity can
  only come from a non-zero entry divided by zero, which in this program needs \<open>h = 0\<close>.\<close>

definition np_div :: "cell \<Rightarrow> real option \<Rightarrow> cell" where
  "np_div z d =
     (case z of None \<Rightarrow> None | Some u \<Rightarrow>
        (case d of None \<Rightarrow> None | Some v \<Rightarrow> if v = 0 then None else Some (u / of_real v)))"

definition fadd :: "field \<Rightarrow> field \<Rightarrow> field" where
  "fadd x y = map2 (map2 (lift2 (+))) x y"

definition fsub :: "field \<Rightarrow> field \<Rightarrow> field" where
  "fsub x y = map2 (map2 (lift2 (-))) x y"

definition fmul :: "field \<Rightarrow> field \<Rightarrow> field" where
  "fmul x y = map2 (map2 (lift2 (*))) x y"

text \<open>A scalar times an array.\<close>

definition fscale :: "complex \<Rightarrow> field \<Rightarrow> field" where
  "fscale c x = map (map (map_option (\<lambda>z. c * z))) x"

text \<open>A real array as a complex one.\<close>

definition of_frame :: "real list list \<Rightarrow> field" where
  "of_frame m = map (map (\<lambda>x. Some (of_real x))) m"

text \<open>\<open>shape[0]\<close> and \<open>shape[1]\<close> of a two-dimensional array, and agreement of shapes.\<close>

definition nrows :: "'a list list \<Rightarrow> nat" where
  "nrows m = length m"

definition ncols :: "'a list list \<Rightarrow> nat" where
  "ncols m = (case m of [] \<Rightarrow> 0 | r # _ \<Rightarrow> length r)"

definition same_shape :: "'a list list \<Rightarrow> 'b list list \<Rightarrow> bool" where
  "same_shape x y = (map length x = map length y)"

subsection \<open>The discrete Fourier transform\<close>

text \<open>\<open>np.fft.fftfreq(n)\<close>: \<open>[0, 1, ..., (n-1)//2, -(n//2), ..., -1] * (1.0/n)\<close>; the division
  raises for \<open>n = 0\<close>.\<close>

definition fftfreq :: "nat \<Rightarrow> py_error + real list" where
  "fftfreq n =
     (if n = 0 then Inl ZeroDivisionError
      else Inr (map (\<lambda>i. (if i < (n - 1) div 2 + 1 then real i else real i - real n)
                          * (1 / real n)) [0..<n]))"

definition sum_cells :: "cell list \<Rightarrow> cell" where
  "sum_cells xs = foldr (lift2 (+)) xs (Some 0)"

text \<open>The two-dimensional transform with kernel \<open>exp(sg 2\<pi>i (u j / n0 + v k / n1))\<close>, not
  normalised.\<close>

definition dft2 :: "real \<Rightarrow> field \<Rightarrow> field" where
  "dft2 sg m =
     map (\<lambda>u. map (\<lambda>v.
       sum_cells (concat (map (\<lambda>j. map (\<lambda>k.
         map_option (\<lambda>z. z * cis (sg * 2 * pi * (real u * real j / real (nrows m)
                                                   + real v * real k / real (ncols m))))
           (m ! j ! k)) [0..<ncols m]) [0..<nrows m])))
       [0..<ncols m]) [0..<nrows m]"

definition fftn :: "field \<Rightarrow> field" where
  "fftn m = dft2 (- 1) m"

definition ifftn :: "field \<Rightarrow> field" where
  "ifftn m = map (map (map_option (\<lambda>z. z / of_nat (nrows m * ncols m)))) (dft2 1 m)"

text \<open>\<open>np.real\<close> and \<open>np.imag\<close> of an array, kept as complex entries.\<close>

definition np_real :: "field \<Rightarrow> field" where
  "np_real m = map (map (map_option (\<lambda>z. of_real (Re z)))) m"

definition np_imag :: "field \<Rightarrow> field" where
  "np_imag m = map (map (map_option (\<lambda>z. of_real (Im z)))) m"

subsection \<open>The right-hand side\<close>

text \<open>The multiplier \<open>-(fx[None,:]**2)*F - (fy[:,None]**2)*F\<close> of a transformed square
  array: \<open>fx\<close> runs along the second axis, \<open>fy\<close> along the first.\<close>

definition spectral_mult :: "real list \<Rightarrow> real list \<Rightarrow> field \<Rightarrow> field" where
  "spectral_mult fx fy F =
     map (\<lambda>u. map (\<lambda>v.
       lift2 (-) (map_option (\<lambda>z. of_real (- ((fx ! v)\<^sup>2)) * z) (F ! u ! v))
                 (map_option (\<lambda>z. of_real ((fy ! u)\<^sup>2) * z) (F ! u ! v)))
       [0..<ncols F]) [0..<nrows F]"

text \<open>The Laplacian as line 253 computes it:
  \<open>np.real(ifftn(..rFtState..)) + 1j*np.real(ifftn(..iFtState..))/(self.h**2)\<close>.
  The division binds tighter than the sum, so it applies to the second summand.\<close>

definition laplacian :: "ncgl \<Rightarrow> real list \<Rightarrow> real list \<Rightarrow> field \<Rightarrow> field" where
  "laplacian self fx fy state =
     (let rFtState = fftn (np_real state);
          iFtState = fftn (np_imag state);
          lap_real = np_real (ifftn (spectral_mult fx fy rFtState));
          lap_imag = np_real (ifftn (spectral_mult fx fy iFtState))
      in fadd lap_real
           (map (map (\<lambda>z. np_div z (Some ((h self)\<^sup>2)))) (fscale \<i> lap_imag)))"

text \<open>\<open>timeDerivatives(self, state, time)\<close>. Arrays are square here, as every field of a
  run is; on other shapes numpy's broadcasting in the line of \<open>lap\<close> fails with
  \<open>ValueError\<close> (shapes with an axis of length one, which numpy stretches, are not
  modelled). \<open>time\<close> and \<open>maxTime\<close> are
  Python floats, whose division by zero raises.\<close>

definition timeDerivatives :: "ncgl \<Rightarrow> field \<Rightarrow> real \<Rightarrow> py_error + field" where
  "timeDerivatives self state time =
     bindE (fftfreq (nrows state)) (\<lambda>f0.
     bindE (fftfreq (ncols state)) (\<lambda>f1.
     let fx = map (\<lambda>x. 2 * pi * x) f0;
         fy = map (\<lambda>x. 2 * pi * x) f1
     in case maxTime self of None \<Rightarrow> Inl AttributeError | Some mt \<Rightarrow>
          if mt = 0 then Inl ZeroDivisionError
          else let normalizedTime = time / mt in
          bindE (interpolateNoise self normalizedTime) (\<lambda>(tnr1, tnr2).
          if nrows state \<noteq> ncols state then Inl ValueError
          else let lap = laplacian self fx fy state in
          if noiseType self = ''diffusive'' then
            (if \<not> same_shape tnr2 state then Inl ValueError
             else Inr (fadd (fadd (fscale (1 + of_real (c1 self) * \<i>) lap)
                                  (reaction_field self state time))
                            (map2 (map2 np_div)
                               (fmul (fscale (of_real (sigma_r self)) lap) (of_frame tnr2))
                               (map (map (map_option cmod)) lap))))
          else if \<not> same_shape tnr1 state then Inl ValueError
          else if noiseType self = ''multiplicative'' then
            Inr (fadd (fadd (fscale (1 + of_real (c1 self) * \<i>) lap)
                            (reaction_field self state time))
                      (fmul (fscale (of_real (sigma_r self)) state)
                            (fadd (of_frame tnr1) (fscale \<i> (of_frame tnr1)))))
          else
            Inr (fadd (fadd (fscale (1 + of_real (c1 self) * \<i>) lap)
                            (reaction_field self state time))
                      (fscale (of_real (sigma_r self))
                            (fadd (of_frame tnr1) (fscale \<i> (of_frame tnr1))))))))"

subsection \<open>The initial condition\<close>

text \<open>\<open>__getRandom(self, n, dim)\<close> for \<open>dim = 2\<close>: \<open>np.random.rand(n**dim).reshape((n, n))\<close>.
  The argument \<open>draw\<close> is the array that \<open>np.random.rand\<close> returned; a reshape to a
  negative side, or of an array of another size, raises \<open>ValueError\<close>.\<close>

definition getRandom :: "real list \<Rightarrow> int \<Rightarrow> py_error + real list list" where
  "getRandom draw n =
     (if n < 0 \<or> length draw \<noteq> nat (n * n) then Inl ValueError
      else Inr (map (\<lambda>i. take (nat n) (drop (i * nat n) draw)) [0..<nat n]))"

text \<open>\<open>__getGaussian(self, n, dim)\<close>: \<open>np.zeros\<close> raises \<open>ValueError\<close> on a negative side,
  and \<open>np.sum(..., as_vs=0)\<close> raises \<open>TypeError\<close> (there is no such keyword) on every other
  call, so no value is ever returned.\<close>

definition getGaussian :: "int \<Rightarrow> py_error + real list list" where
  "getGaussian n = (if n < 0 then Inl ValueError else Inl TypeError)"

text \<open>\<open>getInitialCondition(self)\<close>: returns the new field and the object with \<open>self.a\<close>
  assigned. \<open>u1\<close> and \<open>u2\<close> are the two draws of the random branch.\<close>

definition getInitialCondition :: "ncgl \<Rightarrow> real list \<Rightarrow> real list \<Rightarrow> ncgl \<times> (py_error + field)" where
  "getInitialCondition self u1 u2 =
     (if ic self = ''r'' then
        (case getRandom u1 (msize self) of Inl e \<Rightarrow> (self, Inl e) | Inr g1 \<Rightarrow>
         case getRandom u2 (msize self) of Inl e \<Rightarrow> (self, Inl e) | Inr g2 \<Rightarrow>
           let new = map2 (map2 (\<lambda>x y. Some (of_real (a0 self)
                           * (of_real (x - 0.5) + \<i> * of_real (y - 0.5))))) g1 g2
           in (self\<lparr>a := Some new\<rparr>, Inr new))
      else
        (case getGaussian (msize self) of Inl e \<Rightarrow> (self, Inl e) | Inr g1 \<Rightarrow>
         case getGaussian (msize self) of Inl e \<Rightarrow> (self, Inl e) | Inr g2 \<Rightarrow>
           let new = map2 (map2 (\<lambda>x y. Some (of_real (a0 self)
                           * (of_real x + \<i> * of_real y)))) g1 g2
           in (self\<lparr>a := Some new\<rparr>, Inr new)))"

subsection \<open>The adaptive integrator\<close>

text \<open>The table \<open>w\<close> of \<open>solveRKF45\<close>.\<close>

definition w :: "real list list" where
  "w = [[0, 0, 0, 0, 0, 0],
        [1 / 4, 0, 0, 0, 0, 0],
        [3 / 32, 9 / 32, 0, 0, 0, 0],
        [1932 / 2197, - 7200 / 2197, 7296 / 2197, 0, 0, 0],
        [439 / 216, - 8, 3680 / 513, - 845 / 4104, 0, 0],
        [- 8 / 27, 2, - 3544 / 2565, 1859 / 4104, - 11 / 40, 0]]"

text \<open>An array times a real number.\<close>

definition rscale :: "real \<Rightarrow> field \<Rightarrow> field" where
  "rscale c x = fscale (of_real c) x"

text \<open>The six stages \<open>k1 .. k6\<close> for a step size \<open>step\<close> (lines 210-215 and 224-229).\<close>

definition rkf45_stages ::
  "ncgl \<Rightarrow> real \<Rightarrow> field \<Rightarrow> real \<Rightarrow> py_error + (field \<times> field \<times> field \<times> field \<times> field \<times> field)"
where
  "rkf45_stages self step state t =
     bindE (timeDerivatives self state t) (\<lambda>d1.
     let k1 = rscale step d1 in
     bindE (timeDerivatives self (fadd state (rscale (w ! 1 ! 0) k1)) (t + step / 4)) (\<lambda>d2.
     let k2 = rscale step d2 in
     bindE (timeDerivatives self
              (fadd (fadd state (rscale (w ! 2 ! 0) k1)) (rscale (w ! 2 ! 1) k2))
              (t + 3 * step / 8)) (\<lambda>d3.
     let k3 = rscale step d3 in
     bindE (timeDerivatives self
              (fadd (fadd (fadd state (rscale (w ! 3 ! 0) k1)) (rscale (w ! 3 ! 1) k2))
                    (rscale (w ! 3 ! 2) k3))
              (t + 12 * step / 13)) (\<lambda>d4.
     let k4 = rscale step d4 in
     bindE (timeDerivatives self
              (fadd (fadd (fadd (fadd state (rscale (w ! 4 ! 0) k1)) (rscale (w ! 4 ! 1) k2))
                          (rscale (w ! 4 ! 2) k3)) (rscale (w ! 4 ! 3) k4))
              (t + step)) (\<lambda>d5.
     let k5 = rscale step d5 in
     bindE (timeDerivatives self
              (fadd (fadd (fadd (fadd (fadd state (rscale (w ! 5 ! 0) k1)) (rscale (w ! 5 ! 1) k2))
                                (rscale (w ! 5 ! 2) k3)) (rscale (w ! 5 ! 3) k4))
                    (rscale (w ! 5 ! 4) k5))
              (t + step / 2)) (\<lambda>d6.
     let k6 = rscale step d6 in
     Inr (k1, k2, k3, k4, k5, k6)))))))"

text \<open>The two estimates (lines 217-218 and 231).\<close>

definition approach4 :: "field \<Rightarrow> field \<Rightarrow> field \<Rightarrow> field \<Rightarrow> field \<Rightarrow> field" where
  "approach4 state k1 k3 k4 k5 =
     fsub (fadd (fadd (fadd state (rscale (25 / 216) k1)) (rscale (1408 / 2565) k3))
                (rscale (2197 / 4101) k4))
          (rscale (1 / 5) k5)"

definition approach5 :: "field \<Rightarrow> field \<Rightarrow> field \<Rightarrow> field \<Rightarrow> field \<Rightarrow> field \<Rightarrow> field" where
  "approach5 state k1 k3 k4 k5 k6 =
     fadd (fsub (fadd (fadd (fadd state (rscale (16 / 135) k1)) (rscale (6656 / 12825) k3))
                      (rscale (28561 / 56430) k4))
                (rscale (9 / 50) k5))
          (rscale (2 / 55) k6)"

text \<open>\<open>np.max(np.abs(x))\<close>: \<open>ValueError\<close> on an array without entries, NaN as soon as one
  entry is.\<close>

definition np_max_abs :: "field \<Rightarrow> py_error + real option" where
  "np_max_abs x =
     (let cells = concat x
      in if cells = [] then Inl ValueError
         else if None \<in> set cells then Inr None
         else Inr (Some (Max (set (map (\<lambda>c. cmod (the c)) cells)))))"

text \<open>
  The body of the loop of \<open>solveRKF45\<close>: the new field and the new elapsed time.
  A comparison with a NaN error is false (an infinite error, possible for \<open>h = 0\<close> only,
  would make the corrected step zero; it is not told apart from NaN). With \<open>error > dtTolerace\<close> and a negative
  \<open>dtTolerace\<close> the quotient \<open>dtTolerace/(2*error)\<close> is negative or \<open>-inf\<close>, its power
  \<open>**.25\<close> is NaN or \<open>inf\<close>, and so is the time \<open>t+step/4\<close> of the second stage, on which
  \<open>int(np.floor(...))\<close> in \<open>interpolateNoise\<close> raises \<open>ValueError\<close> or \<open>OverflowError\<close>.
  The sum \<open>t + step\<close> is the exact one; the rounding of \<open>t += step\<close> is the subject of
  \<open>times_f64\<close> below.
\<close>

definition rkf45_step :: "ncgl \<Rightarrow> real \<Rightarrow> real \<Rightarrow> field \<Rightarrow> real \<Rightarrow> py_error + (field \<times> real)" where
  "rkf45_step self dtTolerace dt state t =
     bindE (rkf45_stages self dt state t) (\<lambda>(k1, k2, k3, k4, k5, k6).
     let a4 = approach4 state k1 k3 k4 k5;
         a5 = approach5 state k1 k3 k4 k5 k6
     in bindE (np_max_abs (fsub a4 a5)) (\<lambda>error.
        case error of None \<Rightarrow> Inr (a4, t + dt)
        | Some e \<Rightarrow>
            if e > dtTolerace then
              (if dtTolerace < 0 then (if e = 0 then Inl OverflowError else Inl ValueError)
               else let step = dt * ((dtTolerace / (2 * e)) powr (25 / 100)) in
                 bindE (rkf45_stages self step state t) (\<lambda>(k1, k2, k3, k4, k5, k6).
                 Inr (approach4 state k1 k3 k4 k5, t + step)))
            else Inr (a4, t + dt)))"


text \<open>\<open>for time in range(ntimes)\<close>, from step \<open>i\<close> on with \<open>n\<close> steps left; \<open>states\<close> and
  \<open>elapsed\<close> (the list \<open>times\<close>) are the two lists being appended to.\<close>

fun rkf45_loop ::
  "ncgl \<Rightarrow> real \<Rightarrow> real \<Rightarrow> nat set \<Rightarrow> nat \<Rightarrow> nat \<Rightarrow> field \<Rightarrow> real \<Rightarrow> field list \<Rightarrow> real list
     \<Rightarrow> py_error + (field list \<times> real list)"
where
  "rkf45_loop self dtTolerace dt stepsave i 0 state t states elapsed = Inr (states, elapsed)"
| "rkf45_loop self dtTolerace dt stepsave i (Suc n) state t states elapsed =
     bindE (rkf45_step self dtTolerace dt state t) (\<lambda>(state', t').
     rkf45_loop self dtTolerace dt stepsave (Suc i) n state' t'
       (if i \<in> stepsave then states @ [state'] else states) (elapsed @ [t']))"

text \<open>\<open>np.gradient\<close> of the three-dimensional noise array, first component (along the
  frames): \<open>ValueError\<close> when an axis has fewer than two entries.\<close>

definition gradient_axis0 :: "tensor \<Rightarrow> py_error + tensor" where
  "gradient_axis0 T =
     (if length T < 2 \<or> (\<exists>m \<in> set T. length m < 2 \<or> (\<exists>r \<in> set m. length r < 2))
      then Inl ValueError
      else gradient1 (map2 (map2 (-))) (map (map (\<lambda>x. x / 2))) T)"

text \<open>
  \<open>solveRKF45(self, dt, ntimes, stepsave, dtTolerace)\<close>: the object as the call leaves it,
  and the exception raised or the pair \<open>(states, times)\<close> returned. The generator
  \<open>cNoise.cNoise(beta, shape, std)\<close> is not part of this file: it is the argument \<open>cNoise\<close>,
  with the exception it raises or the array it returns. \<open>u1\<close> and \<open>u2\<close> are the random
  draws of the initial condition, \<open>stepsave\<close> the set of the indices to save.
\<close>

definition solveRKF45 ::
  "ncgl \<Rightarrow> (real \<Rightarrow> int \<times> int \<times> int \<Rightarrow> real \<Rightarrow> py_error + tensor) \<Rightarrow> real list \<Rightarrow> real list
     \<Rightarrow> real \<Rightarrow> nat \<Rightarrow> nat set \<Rightarrow> real \<Rightarrow> ncgl \<times> (py_error + (field list \<times> real list))"
where
  "solveRKF45 self cNoise u1 u2 dt ntimes stepsave dtTolerace =
     (case getInitialCondition self u1 u2 of
        (self1, Inl e) \<Rightarrow> (self1, Inl e)
      | (self1, Inr state) \<Rightarrow>
          let exponent = (case noiseArgs self1 ''beta'' of Some b \<Rightarrow> b | None \<Rightarrow> 2);
              std = (case noiseArgs self1 ''std'' of Some sd \<Rightarrow> sd | None \<Rightarrow> 0.01)
          in case cNoise exponent
                  (py_int (noiseSpeed self1 * real ntimes), msize self1, msize self1) std of
               Inl e \<Rightarrow> (self1, Inl e)
             | Inr raw \<Rightarrow>
                 let self2 = self1\<lparr>nr1 := Some raw, nr2 := Some raw\<rparr>
                 in case gradient_axis0 raw of
                      Inl e \<Rightarrow> (self2, Inl e)
                    | Inr rate \<Rightarrow>
                        let self3 = self2\<lparr>nr1 := Some rate,
                                          maxTime := Some (real (ntimes + 2) * dt)\<rparr>
                        in (self3, rkf45_loop self3 dtTolerace dt stepsave 0 ntimes state 0
                                     [state] []))"

subsection \<open>Reference formulas and example objects\<close>

text \<open>The Laplacian as the specification words it: the recombined field
  \<open>lap_real + i lap_imag\<close>, divided entry by entry by \<open>h\<^sup>2\<close>. It is compared below with
  \<open>laplacian\<close>, which is the formula of the source.\<close>

definition laplacian_spec :: "ncgl \<Rightarrow> real list \<Rightarrow> real list \<Rightarrow> field \<Rightarrow> field" where
  "laplacian_spec self fx fy state =
     (let rFtState = fftn (np_real state);
          iFtState = fftn (np_imag state);
          lap_real = np_real (ifftn (spectral_mult fx fy rFtState));
          lap_imag = np_real (ifftn (spectral_mult fx fy iFtState))
      in map (map (\<lambda>z. np_div z (Some ((h self)\<^sup>2)))) (fadd lap_real (fscale \<i> lap_imag)))"

text \<open>The fourth-order estimate with the weights of Fehlberg's 4(5) method, for comparison
  with \<open>approach4\<close>.\<close>

definition approach4_fehlberg :: "field \<Rightarrow> field \<Rightarrow> field \<Rightarrow> field \<Rightarrow> field \<Rightarrow> field" where
  "approach4_fehlberg state k1 k3 k4 k5 =
     fsub (fadd (fadd (fadd state (rscale (25 / 216) k1)) (rscale (1408 / 2565) k3))
                (rscale (2197 / 4104) k4))
          (rscale (1 / 5) k5)"

text \<open>A two by two field with one non-zero entry, on a grid of spacing \<open>h = 2\<close>.\<close>

definition spike :: field where
  "spike = [[Some (1 + \<i>), Some 0], [Some 0, Some 0]]"

definition coarse_grid :: ncgl where
  "coarse_grid = init 1 1 2 2 ''r'' 0 1 ''additive'' None"

text \<open>A spatially constant field, and an object in the state in which \<open>solveRKF45\<close> calls
  \<open>timeDerivatives\<close>: diffusive noise, a buffer of two frames, \<open>maxTime\<close> assigned.\<close>

definition flat_field :: field where
  "flat_field = [[Some 1, Some 1], [Some 1, Some 1]]"

definition diffusive_run :: ncgl where
  "diffusive_run = (init 1 1 1 2 ''r'' 1 1 ''diffusive'' None)
      \<lparr> nr1 := Some [[[0, 0], [0, 0]], [[0, 0], [0, 0]]],
        nr2 := Some [[[1, 2], [3, 4]], [[1, 2], [3, 4]]],
        maxTime := Some 1 \<rparr>"

subsection \<open>Shapes, the generator's contract and example runs\<close>

text \<open>A two-dimensional array of side \<open>n\<close>.\<close>

definition square :: "nat \<Rightarrow> 'a list list \<Rightarrow> bool" where
  "square n x = (map length x = replicate n n)"

text \<open>The state of the object during the loop of \<open>solveRKF45\<close>: \<open>maxTime\<close> is assigned,
  and the two views of the noise buffer have the same positive number of frames of side
  \<open>n\<close>.\<close>

definition buffers_ready :: "ncgl \<Rightarrow> nat \<Rightarrow> real \<Rightarrow> bool" where
  "buffers_ready self n mt =
     (maxTime self = Some mt \<and>
      (case (nr1 self, nr2 self) of
         (Some r1, Some r2) \<Rightarrow> r1 \<noteq> [] \<and> length r2 = length r1
                                \<and> list_all (square n) r1 \<and> list_all (square n) r2
       | _ \<Rightarrow> False))"

text \<open>Modelled from the spec: the noise generator \<open>cNoise.cNoise\<close>, which is not in this
  file. "Given a spectral exponent, a target shape, and a standard deviation, it returns a
  real-valued array" of that shape; here for the shape \<open>(F, n, n)\<close>.\<close>

definition generates :: "(real \<Rightarrow> int \<times> int \<times> int \<Rightarrow> real \<Rightarrow> py_error + tensor) \<Rightarrow> nat \<Rightarrow> nat \<Rightarrow> bool" where
  "generates cNoise F n =
     (\<forall>beta std. \<exists>raw. cNoise beta (int F, int n, int n) std = Inr raw
                         \<and> length raw = F \<and> list_all (square n) raw)"

text \<open>The lengths of the two sequences that a call of \<open>solveRKF45\<close> returned; \<open>None\<close> if it
  raised.\<close>

definition trace_lengths :: "ncgl \<times> (py_error + (field list \<times> real list)) \<Rightarrow> (nat \<times> nat) option" where
  "trace_lengths r = (case snd r of Inl e \<Rightarrow> None | Inr (states, elapsed) \<Rightarrow> Some (length states, length elapsed))"

text \<open>A generator that meets the contract, for the example runs: every entry is \<open>std\<close>.\<close>

definition still_noise :: "real \<Rightarrow> int \<times> int \<times> int \<Rightarrow> real \<Rightarrow> py_error + tensor" where
  "still_noise beta shape std =
     (case shape of (f, m, k) \<Rightarrow> Inr (replicate (nat f) (replicate (nat m) (replicate (nat k) std))))"

text \<open>The object of the scenario of the specification (\<open>msize = 8\<close>, \<open>noiseSpeed = 0.5\<close>,
  additive noise of strength 0), and one with \<open>noiseSpeed = 2\<close>.\<close>

definition scenario :: ncgl where
  "scenario = init 1 1 1 8 ''r'' 0 (1 / 2) ''additive'' None"

definition fast_noise :: ncgl where
  "fast_noise = init 1 1 1 2 ''r'' 0 2 ''additive'' None"


text \<open>A two by two field with the same amplitude in every entry, and the amplitude
  \<open>x (1 + i)\<close>, of equal real and imaginary part: the additive noise term
  \<open>sigma_r*(tnr1 + 1j*tnr1)\<close> has this form.\<close>

definition uniform :: "complex \<Rightarrow> field" where
  "uniform z = [[Some z, Some z], [Some z, Some z]]"

definition diagonal :: "real \<Rightarrow> complex" where
  "diagonal x = Complex x x"

text \<open>A generator that meets the contract and whose frames grow at rate 1: every entry
  of frame \<open>i\<close> is \<open>i\<close>, so the rate view \<open>np.gradient\<close> of the buffer is 1 everywhere.\<close>

definition ramp_noise :: "real \<Rightarrow> int \<times> int \<times> int \<Rightarrow> real \<Rightarrow> py_error + tensor" where
  "ramp_noise beta shape std =
     (case shape of (f, m, k) \<Rightarrow>
        Inr (map (\<lambda>i. replicate (nat m) (replicate (nat k) (real i))) [0..<nat f]))"

text \<open>An object with additive noise of strength 1 and \<open>c2 = 0\<close> on a grid of side 2; and
  the same object as \<open>solveRKF45\<close> leaves it after a run of two steps of size \<open>dt = 1\<close>
  with the generator \<open>ramp_noise\<close> from the field 0 (all random draws equal to 1/2).\<close>

definition driven :: ncgl where
  "driven = init 1 0 1 2 ''r'' 1 1 ''additive'' None"

definition driven_run :: ncgl where
  "driven_run = driven
      \<lparr> a := Some (uniform 0),
        nr1 := Some [[[1, 1], [1, 1]], [[1, 1], [1, 1]]],
        nr2 := Some [[[0, 0], [0, 0]], [[1, 1], [1, 1]]],
        maxTime := Some 4 \<rparr>"

subsection \<open>Binary64 arithmetic\<close>

text \<open>
  Whether \<open>interpolateNoise\<close> returns a stored frame at that frame's time depends on the
  rounding of the product \<open>(frames - 1) * time\<close>, and whether the last elapsed time of a
  run stays below \<open>ntimes * dt\<close> depends on the rounding of the sums \<open>t += step\<close>. These
  two computations are therefore also transcribed with the rounding of every
  floating-point operation written out.
  \<open>fl x\<close> is the binary64 number nearest to \<open>x\<close>, ties to the even significand (53-bit
  significands; overflow and subnormal numbers do not occur below).
\<close>

definition round_half_even :: "real \<Rightarrow> int" where
  "round_half_even x =
     (let f = \<lfloor>x\<rfloor>; r = x - of_int f
      in if r < 1 / 2 then f else if 1 / 2 < r then f + 1 else if even f then f else f + 1)"

definition fl :: "real \<Rightarrow> real" where
  "fl x = (if x = 0 then 0
           else let u = 2 powr (of_int \<lfloor>log 2 \<bar>x\<bar>\<rfloor> - 52)
                in of_int (round_half_even (x / u)) * u)"

text \<open>\<open>np.linspace(0, 1, n)\<close> as numpy computes it: \<open>step = 1.0/(n-1)\<close>, the entries
  \<open>arange(n)*step\<close>, the last one overwritten by the end point.\<close>

definition linspace_f64 :: "nat \<Rightarrow> real list" where
  "linspace_f64 n =
     map (\<lambda>i. if n = 1 then 0 else if i = n - 1 then 1
               else fl (real i * fl (1 / real (n - 1)))) [0..<n]"

definition blend_f64 :: "real \<Rightarrow> real \<Rightarrow> real \<Rightarrow> real list list \<Rightarrow> real list list \<Rightarrow> real list list" where
  "blend_f64 t1 t2 time m1 m2 =
     map2 (map2 (\<lambda>x y. fl (fl (fl (\<bar>fl (t1 - time)\<bar> * x) / \<bar>fl (t2 - t1)\<bar>)
                           + fl (fl (\<bar>fl (t2 - time)\<bar> * y) / \<bar>fl (t2 - t1)\<bar>)))) m1 m2"

definition interpolateNoise_f64 :: "ncgl \<Rightarrow> real \<Rightarrow> py_error + (real list list \<times> real list list)" where
  "interpolateNoise_f64 self time =
     (case nr1 self of None \<Rightarrow> Inl AttributeError | Some r1 \<Rightarrow>
        let t = linspace_f64 (length r1);
            p1 = \<lfloor>fl ((of_int (int (length r1) - 1)) * time)\<rfloor>;
            p2 = \<lceil>fl ((of_int (int (length r1) - 1)) * time)\<rceil>
        in bindE (py_index t p1) (\<lambda>t1.
           bindE (py_index t p2) (\<lambda>t2.
           bindE (py_index r1 p1) (\<lambda>mr1.
           bindE (py_index r1 p2) (\<lambda>mr2.
           case nr2 self of None \<Rightarrow> Inl AttributeError | Some r2 \<Rightarrow>
           bindE (py_index r2 p1) (\<lambda>md1.
           bindE (py_index r2 p2) (\<lambda>md2.
           if \<bar>fl (t1 - t2)\<bar> < fl (1 / 10 ^ 15) then Inr (mr1, md1)
           else Inr (blend_f64 t1 t2 time mr1 mr2, blend_f64 t1 t2 time md1 md2))))))))"

text \<open>A buffer of fifty frames of one entry, of which frame 1 holds the value 2 and all
  others 0; and the binary64 number nearest to \<open>1/49\<close>, the time of frame 1.\<close>

definition fifty_frames :: ncgl where
  "fifty_frames = (init 1 1 1 1 ''r'' 1 1 ''additive'' None)
      \<lparr> nr1 := Some ([[0]] # [[2]] # replicate 48 [[0]]),
        nr2 := Some ([[0]] # [[2]] # replicate 48 [[0]]) \<rparr>"

definition tau49 :: real where
  "tau49 = 5882252574524729 / 2 ^ 58"



section \<open>Properties\<close>

subsection \<open>Exceptions and indexing\<close>

lemma bindE_Inr [simp]: "bindE (Inr x) f = f x" by (simp add: bindE_def)
lemma bindE_Inl [simp]: "bindE (Inl e) f = Inl e" by (simp add: bindE_def)

subsection \<open>The reaction term\<close>

text \<open>
  C5. The reaction term is the deterministic expression \<open>a - (1 + i c2) |a|\<^sup>2 a\<close>: its real
  and imaginary parts are those of this expression, its value depends on the object through
  \<open>c2\<close> only and not on the time, zero is mapped to zero, and on an array it is the same
  expression in every entry. It has no error result and returns no new object state.
\<close>

theorem reaction_pure:
  "reaction self z t = z - (1 + \<i> * of_real (c2 self)) * of_real ((cmod z)\<^sup>2) * z
   \<and> Re (reaction self z t) = Re z - (cmod z)\<^sup>2 * (Re z - c2 self * Im z)
   \<and> Im (reaction self z t) = Im z - (cmod z)\<^sup>2 * (Im z + c2 self * Re z)
   \<and> (c2 self' = c2 self \<longrightarrow> reaction self' z t' = reaction self z t)
   \<and> reaction self 0 t = 0
   \<and> reaction_field self state t =
       map (map (map_option (\<lambda>z. z - (1 + \<i> * of_real (c2 self)) * of_real ((cmod z)\<^sup>2) * z))) state"
  by (simp add: reaction_def reaction_field_def algebra_simps)

theorem reaction_pure_witness:
  "c2 (init 5 1 2 64 ''r'' 0 1 ''additive'' None) = c2 (init 1 1 1 128 ''r'' 1 1 ''multiplicative'' None)
   \<and> reaction (init 5 1 2 64 ''r'' 0 1 ''additive'' None) 1 7
     = reaction (init 1 1 1 128 ''r'' 1 1 ''multiplicative'' None) 1 0"
  using reaction_pure [of "init 1 1 1 128 ''r'' 1 1 ''multiplicative'' None" 1 0
      "init 5 1 2 64 ''r'' 0 1 ''additive'' None" 7]
  by (simp add: init_def)

subsection \<open>Noise lookups of the single-amplitude integrator\<close>

lemma interp_int: "i < nit \<Longrightarrow> length eta = nit + 2 \<Longrightarrow> interpolate1D eta (real i) = Inr (eta ! i)"
  by (simp add: interpolate1D_def py_index_def)

lemma floor_half: "\<lfloor>real i + 1 / 2\<rfloor> = int i" by linarith
lemma ceil_half: "\<lceil>real i + 1 / 2\<rceil> = int i + 1" by linarith

lemma interp_half: "i < nit \<Longrightarrow> length eta = nit + 2 \<Longrightarrow> \<exists>v. interpolate1D eta (real i + 1 / 2) = Inr v"
  by (simp add: interpolate1D_def py_index_def floor_half ceil_half Let_def)

lemma interp_one: "i < nit \<Longrightarrow> length eta = nit + 2 \<Longrightarrow> \<exists>v. interpolate1D eta (real i + 1) = Inr v"
proof -
  assume a: "i < nit" "length eta = nit + 2"
  have "real i + 1 = real (i + 1)" by simp
  then have f: "\<lfloor>real i + 1\<rfloor> = int (i+1)" "\<lceil>real i + 1\<rceil> = int (i+1)" by (simp_all only: floor_of_nat ceiling_of_nat)
  show ?thesis using a unfolding interpolate1D_def f by (simp add: py_index_def Let_def)
qed

lemma step_ok: "i < nit \<Longrightarrow> length eta = nit + 2 \<Longrightarrow> \<exists>v. noisy_rk4_step self eta dt i z = Inr v"
proof -
  assume a: "i < nit" "length eta = nit + 2"
  have h5: "(0.5::real) = 1 / 2" by simp
  obtain v where v: "interpolate1D eta (real i + 0.5) = Inr v" using interp_half[OF a] unfolding h5 by blast
  obtain w where w: "interpolate1D eta (real i + 1) = Inr w" using interp_one[OF a] by blast
  show ?thesis unfolding noisy_rk4_step_def Let_def interp_int[OF a] v w
    by simp
qed

lemma loop_ok: "i + n \<le> nit \<Longrightarrow> length eta = nit + 2 \<Longrightarrow> \<exists>ys. noisy_loop self eta dt i n z = Inr ys \<and> length ys = n"
proof (induction n arbitrary: i z)
  case 0 then show ?case by simp
next
  case (Suc n)
  then have "i < nit" by simp
  then obtain v where v: "noisy_rk4_step self eta dt i z = Inr v" using step_ok Suc.prems(2) by blast
  have "Suc i + n \<le> nit" using Suc.prems by simp
  then obtain ys where "noisy_loop self eta dt (Suc i) n v = Inr ys \<and> length ys = n" using Suc.IH Suc.prems(2) by blast
  then show ?case by (simp add: v)
qed

lemma gradient1_len: "2 \<le> length xs \<Longrightarrow> \<exists>ys. gradient1 s hf xs = Inr ys \<and> length ys = length xs"
  by (simp add: gradient1_def Let_def)

text \<open>
  C10. With the two generated noise arrays of length \<open>nit + 2\<close>, the differenced trajectory
  \<open>eta\<close> has length \<open>nit + 2\<close>; at every step \<open>i < nit\<close> and every stage offset 0, 1/2
  and 1 the floor and ceiling indices lie in \<open>[0, nit + 1]\<close> and the lookup returns a value;
  the whole run returns its \<open>nit\<close> states and raises no \<open>IndexError\<close>.
\<close>

theorem noisy_chain_lookups_in_bounds:
  assumes "length noise_re = nit + 2" and "length noise_im = nit + 2"
  shows "(\<exists>eta. gradient1 (-) (\<lambda>z. z / 2) (map2 Complex noise_re noise_im) = Inr eta
            \<and> length eta = nit + 2
            \<and> (\<forall>i<nit. \<forall>off\<in>{0, 1 / 2, 1}.
                  0 \<le> \<lfloor>real i + off\<rfloor> \<and> \<lceil>real i + off\<rceil> \<le> int nit + 1
                  \<and> (\<exists>v. interpolate1D eta (real i + off) = Inr v)))
       \<and> (\<exists>states. getNoisyChainedSingleReaction self rnd noise_re noise_im a0_arg dt nit = Inr states
                    \<and> length states = nit)"
proof -
  let ?raw = "map2 Complex noise_re noise_im"
  have len: "length ?raw = nit + 2" using assms by simp
  then obtain eta where eta: "gradient1 (-) (\<lambda>z. z / 2) ?raw = Inr eta" "length eta = nit + 2"
    using gradient1_len[of ?raw] by auto
  have look: "0 \<le> \<lfloor>real i + off\<rfloor> \<and> \<lceil>real i + off\<rceil> \<le> int nit + 1
                  \<and> (\<exists>v. interpolate1D eta (real i + off) = Inr v)"
    if "i < nit" "off \<in> {0, 1 / 2, 1}" for i off
  proof -
    have b: "0 \<le> \<lfloor>real i + off\<rfloor>" using that by auto
    have c: "\<lceil>real i + off\<rceil> \<le> int nit + 1" using that by (auto simp: ceiling_le_iff)
    have "off = 0 \<or> off = 1 / 2 \<or> off = 1" using that(2) by blast
    then have d: "\<exists>v. interpolate1D eta (real i + off) = Inr v"
    proof (elim disjE)
      assume "off = 0" then show ?thesis using interp_int[OF that(1) eta(2)] by simp
    next
      assume "off = 1 / 2" then show ?thesis using interp_half[OF that(1) eta(2)] by blast
    next
      assume "off = 1" then show ?thesis using interp_one[OF that(1) eta(2)] by blast
    qed
    show ?thesis using b c d by blast
  qed
  obtain states where st: "noisy_loop self eta dt 0 nit (case a0_arg of None \<Rightarrow> of_real (a0 self + 1 / 10 ^ 6 * (rnd - 0.5)) | Some z \<Rightarrow> z) = Inr states" "length states = nit"
    using loop_ok[of 0 nit nit eta self dt] eta(2) by (simp only: add_0 order_refl) blast
  have run: "getNoisyChainedSingleReaction self rnd noise_re noise_im a0_arg dt nit = Inr states"
    unfolding getNoisyChainedSingleReaction_def Let_def using assms eta(1) st(1) by simp
  show ?thesis using eta look run st(2) by blast
qed

theorem noisy_chain_lookups_in_bounds_witness:
  "length [1, 2, 3 :: real] = 1 + 2 \<and> length [0, 1, 0 :: real] = 1 + 2
   \<and> (\<exists>states. getNoisyChainedSingleReaction (init 1 1 1 128 ''r'' 1 1 ''multiplicative'' None)
          (1 / 2) [1, 2, 3] [0, 1, 0] None (1 / 10) 1 = Inr states \<and> length states = 1)"
  using noisy_chain_lookups_in_bounds [of "[1, 2, 3]" 1 "[0, 1, 0]"
      "init 1 1 1 128 ''r'' 1 1 ''multiplicative'' None" "1 / 2" None "1 / 10"]
  by simp

subsection \<open>Temporal interpolation\<close>

lemma py_index_nat: "k < length xs \<Longrightarrow> py_index xs (int k) = Inr (xs ! k)"
  by (simp add: py_index_def)

lemma linspace01_nth: "2 \<le> n \<Longrightarrow> k < n \<Longrightarrow> linspace01 n ! k = real k / (real n - 1)"
  by (simp add: linspace01_def of_nat_diff)

lemma linspace01_len: "length (linspace01 n) = n" by (simp add: linspace01_def)

lemma interp_at_frame:
  assumes "nr1 self = Some r1" "nr2 self = Some r2" "length r2 = length r1"
    "2 \<le> length r1" "k < length r1"
  shows "interpolateNoise self (real k / (real (length r1) - 1)) = Inr (r1 ! k, r2 ! k)"
proof -
  let ?n = "length r1"
  have x: "real_of_int (int ?n - 1) * (real k / (real ?n - 1)) = real k" using assms(4) by simp
  have p: "\<lfloor>real_of_int (int ?n - 1) * (real k / (real ?n - 1))\<rfloor> = int k"
          "\<lceil>real_of_int (int ?n - 1) * (real k / (real ?n - 1))\<rceil> = int k"
    unfolding x by simp_all
  show ?thesis unfolding interpolateNoise_def Let_def p
    using assms by (simp add: py_index_nat linspace01_len bindE_def)
qed

lemma py_index_int: "0 \<le> p \<Longrightarrow> p < int (length xs) \<Longrightarrow> py_index xs p = Inr (xs ! nat p)"
  by (simp add: py_index_def)

text \<open>
  C6. For a time \<open>\<tau>\<close> strictly between the time stamps \<open>t1 = t[p1]\<close> and \<open>t2 = t[p2]\<close> of
  the two bracketing frames, \<open>interpolateNoise\<close> returns, for the rate view and for the raw
  view, the sum of frame \<open>p1\<close> weighted by \<open>|t1 - \<tau>| / |t2 - t1|\<close> and of frame \<open>p2\<close>
  weighted by \<open>|t2 - \<tau>| / |t2 - t1|\<close>. The two time stamps count as distinct by the test of
  the source, \<open>|t1 - t2| \<ge> 1e-15\<close>, which holds for every buffer of at most \<open>10^15 + 1\<close>
  frames. For the buffer of the two frames 0 and 2 and \<open>\<tau>\<close> halfway the value is 1.
\<close>

theorem interpolateNoise_blend:
  assumes "nr1 self = Some r1" "nr2 self = Some r2" "length r2 = length r1"
    and n: "2 \<le> length r1" "real (length r1) - 1 \<le> 10 ^ 15"
    and p: "p1 = \<lfloor>(real (length r1) - 1) * \<tau>\<rfloor>" "p2 = \<lceil>(real (length r1) - 1) * \<tau>\<rceil>"
       "0 \<le> p1" "p2 < int (length r1)"
    and t: "t1 = linspace01 (length r1) ! nat p1" "t2 = linspace01 (length r1) ! nat p2"
       "t1 < \<tau>" "\<tau> < t2"
  shows "interpolateNoise self \<tau> =
           Inr (map2 (map2 (\<lambda>x y. \<bar>t1 - \<tau>\<bar> / \<bar>t2 - t1\<bar> * x + \<bar>t2 - \<tau>\<bar> / \<bar>t2 - t1\<bar> * y)) (r1 ! nat p1) (r1 ! nat p2),
                map2 (map2 (\<lambda>x y. \<bar>t1 - \<tau>\<bar> / \<bar>t2 - t1\<bar> * x + \<bar>t2 - \<tau>\<bar> / \<bar>t2 - t1\<bar> * y)) (r2 ! nat p1) (r2 ! nat p2))"
proof -
  let ?n = "length r1"
  have npos: "0 < real ?n - 1" using n(1) by simp
  have le: "p1 \<le> p2" unfolding p(1,2) by (rule floor_le_ceiling)
  have r1: "p1 < int ?n" "0 \<le> p2" using le p(3,4) by linarith+
  have e1: "t1 = real_of_int p1 / (real ?n - 1)" unfolding t(1)
    using linspace01_nth[of ?n "nat p1"] n(1) r1(1) p(3) by simp
  have e2: "t2 = real_of_int p2 / (real ?n - 1)" unfolding t(2)
    using linspace01_nth[of ?n "nat p2"] n(1) r1(2) p(4) by simp
  have "t1 < t2" using t(3,4) by simp
  then have "real_of_int p1 < real_of_int p2" unfolding e1 e2 using npos
    by (simp add: divide_less_cancel)
  then have "p1 < p2" by simp
  then have "p1 + 1 \<le> p2" by simp
  then have "real_of_int (p1 + 1) \<le> real_of_int p2" by (simp only: of_int_le_iff)
  then have "1 \<le> real_of_int p2 - real_of_int p1" by simp
  then have "1 / (real ?n - 1) \<le> (real_of_int p2 - real_of_int p1) / (real ?n - 1)"
    using npos by (intro divide_right_mono) simp_all
  moreover have "(1::real) / 10 ^ 15 \<le> 1 / (real ?n - 1)" using npos n(2) by (intro frac_le) simp_all
  moreover have "t2 - t1 = (real_of_int p2 - real_of_int p1) / (real ?n - 1)"
    unfolding e1 e2 by (simp only: diff_divide_distrib)
  ultimately have "(1::real) / 10 ^ 15 \<le> t2 - t1" by linarith
  then have far: "\<not> \<bar>t1 - t2\<bar> < 1 / 10 ^ 15" by linarith
  have fl: "\<lfloor>real_of_int (int ?n - 1) * \<tau>\<rfloor> = p1" "\<lceil>real_of_int (int ?n - 1) * \<tau>\<rceil> = p2"
    unfolding p(1,2) by simp_all
  have look: "py_index (linspace01 ?n) p1 = Inr t1" "py_index (linspace01 ?n) p2 = Inr t2"
    "py_index r1 p1 = Inr (r1 ! nat p1)" "py_index r1 p2 = Inr (r1 ! nat p2)"
    "py_index r2 p1 = Inr (r2 ! nat p1)" "py_index r2 p2 = Inr (r2 ! nat p2)"
    using p(3,4) r1 assms(3) by (simp_all add: py_index_int linspace01_len t(1,2))
  have "interpolateNoise self \<tau> =
     Inr (blend t1 t2 \<tau> (r1 ! nat p1) (r1 ! nat p2), blend t1 t2 \<tau> (r2 ! nat p1) (r2 ! nat p2))"
    using far by (simp add: interpolateNoise_def Let_def assms(1,2) p(1,2)[symmetric] look bindE_def)
  then show ?thesis by (simp add: blend_def)
qed

theorem interpolateNoise_blend_witness:
  "interpolateNoise ((init 1 1 1 1 ''r'' 0 (1 / 2) ''additive'' None)
        \<lparr> nr1 := Some [[[0]], [[2]]], nr2 := Some [[[0]], [[2]]] \<rparr>) (1 / 2)
     = Inr ([[1]], [[1]])"
  using interpolateNoise_blend [of "(init 1 1 1 1 ''r'' 0 (1 / 2) ''additive'' None)
        \<lparr> nr1 := Some [[[0]], [[2]]], nr2 := Some [[[0]], [[2]]] \<rparr>"
        "[[[0]], [[2]]]" "[[[0]], [[2]]]" 0 "1 / 2" 1 0 1]
    ceiling_eq [of 0 "1 / 2 :: real"]
  by (simp add: linspace01_def)

subsection \<open>The spectral Laplacian\<close>

lemma cis_mpi [simp]: "cis (- pi) = - 1" by (simp add: complex_eq_iff)
lemma cis_m2pi [simp]: "cis (- (2 * pi)) = 1" by (simp add: complex_eq_iff)
lemma upt2: "[0..<2] = [0, 1]" by (simp add: upt_rec)

lemmas eval_field = Let_def fftn_def ifftn_def dft2_def nrows_def ncols_def upt2 sum_cells_def lift2_def
     np_real_def np_imag_def spectral_mult_def fadd_def fsub_def fmul_def fscale_def rscale_def np_div_def

text \<open>
  C1. On the field \<open>spike\<close> with grid spacing \<open>h = 2\<close> (so \<open>h\<^sup>2 = 4\<close>), with the frequencies
  that \<open>timeDerivatives\<close> passes, the Laplacian of the source has the real parts of the
  transform undivided and only the imaginary parts divided by 4, whereas dividing the
  recombined field by \<open>h\<^sup>2\<close> divides both.
\<close>

theorem laplacian_real_part_unscaled:
  "fftfreq (nrows spike) = Inr [0, - 1 / 2]
   \<and> h coarse_grid = 2
   \<and> laplacian coarse_grid (map (\<lambda>x. 2 * pi * x) [0, - 1 / 2]) (map (\<lambda>x. 2 * pi * x) [0, - 1 / 2]) spike
       = [[Some (Complex (- (pi\<^sup>2)) (- (pi\<^sup>2) / 4)), Some (Complex (pi\<^sup>2 / 2) (pi\<^sup>2 / 8))],
          [Some (Complex (pi\<^sup>2 / 2) (pi\<^sup>2 / 8)), Some 0]]
   \<and> laplacian_spec coarse_grid (map (\<lambda>x. 2 * pi * x) [0, - 1 / 2]) (map (\<lambda>x. 2 * pi * x) [0, - 1 / 2]) spike
       = [[Some (Complex (- (pi\<^sup>2) / 4) (- (pi\<^sup>2) / 4)), Some (Complex (pi\<^sup>2 / 8) (pi\<^sup>2 / 8))],
          [Some (Complex (pi\<^sup>2 / 8) (pi\<^sup>2 / 8)), Some 0]]
   \<and> Complex (- (pi\<^sup>2)) (- (pi\<^sup>2) / 4) \<noteq> Complex (- (pi\<^sup>2) / 4) (- (pi\<^sup>2) / 4)"
  apply (intro conjI)
      apply (simp add: fftfreq_def nrows_def spike_def upt2)
     apply (simp add: coarse_grid_def init_def)
    apply (simp add: laplacian_def eval_field spike_def coarse_grid_def init_def complex_eq_iff)
   apply (simp add: laplacian_spec_def eval_field spike_def coarse_grid_def init_def complex_eq_iff)
  apply simp
  done

subsection \<open>The diffusive noise term\<close>

lemma interp0: "interpolateNoise diffusive_run 0 = Inr ([[0, 0], [0, 0]], [[1, 2], [3, 4]])"
  by (simp add: interpolateNoise_def diffusive_run_def init_def linspace01_def py_index_def upt2)

lemma lap_flat: "laplacian diffusive_run [0, - pi] [0, - pi] flat_field
   = [[Some 0, Some 0], [Some 0, Some 0]]"
  by (simp add: laplacian_def eval_field flat_field_def diffusive_run_def init_def)

lemma cell_map2:
  assumes "u < length (map2 (map2 f) x y)" "v < length (map2 (map2 f) x y ! u)"
  shows "map2 (map2 f) x y ! u ! v = f (x ! u ! v) (y ! u ! v)
         \<and> u < length x \<and> v < length (x ! u) \<and> u < length y \<and> v < length (y ! u)"
proof -
  have a: "map2 (map2 f) x y ! u = map2 f (x ! u) (y ! u)" "u < length x" "u < length y"
    using assms(1) by simp_all
  have "v < length (map2 f (x ! u) (y ! u))" using assms(2) a(1) by simp
  then show ?thesis using a by simp
qed

lemma rhs_flat:
  "timeDerivatives diffusive_run flat_field 0 = Inr [[None, None], [None, None]]"
proof -
  have ff: "fftfreq (nrows flat_field) = Inr [0, - 1 / 2]" "fftfreq (ncols flat_field) = Inr [0, - 1 / 2]"
    by (simp_all add: fftfreq_def nrows_def ncols_def flat_field_def upt2)
  have mt: "maxTime diffusive_run = Some 1" "noiseType diffusive_run = ''diffusive''"
    by (simp_all add: diffusive_run_def init_def)
  have sh: "nrows flat_field = ncols flat_field" "same_shape [[1, 2], [3, 4::real]] flat_field"
    by (simp_all add: nrows_def ncols_def flat_field_def same_shape_def)
  show ?thesis
    unfolding timeDerivatives_def ff 
    by (simp add: Let_def mt sh interp0 lap_flat)
       (simp add: flat_field_def eval_field of_frame_def reaction_field_def)
qed

text \<open>
  C4, as stated, fails: on a spatially constant field the Laplacian is zero in every entry,
  the diffusive branch divides by its modulus without a test, and \<open>timeDerivatives\<close> returns
  (raising nothing) a right-hand side all of whose entries are NaN.
\<close>

theorem diffusive_zero_laplacian_nan:
  "timeDerivatives diffusive_run flat_field 0 = Inr [[None, None], [None, None]]"
  by (rule rhs_flat)

text \<open>
  C4, amended. In the diffusive branch nothing tests \<open>|lap|\<close>: whenever \<open>timeDerivatives\<close>
  returns, an entry whose Laplacian is exactly zero is NaN in the result, and an entry whose
  Laplacian \<open>l\<close> is not zero holds \<open>(1 + i c1) l + reaction + sigma_r l tnr2 / |l|\<close>.
\<close>

theorem diffusive_rhs_unguarded:
  assumes "noiseType self = ''diffusive''"
    and "timeDerivatives self state time = Inr rhs"
    and "u < length rhs" and "v < length (rhs ! u)"
  shows "\<exists>f0 f1 mt tnr1 tnr2.
           fftfreq (nrows state) = Inr f0 \<and> fftfreq (ncols state) = Inr f1 \<and> maxTime self = Some mt
           \<and> interpolateNoise self (time / mt) = Inr (tnr1, tnr2)
           \<and> (\<forall>l. laplacian self (map (\<lambda>x. 2 * pi * x) f0) (map (\<lambda>x. 2 * pi * x) f1) state ! u ! v = Some l \<longrightarrow>
                 (l = 0 \<longrightarrow> rhs ! u ! v = None)
               \<and> (l \<noteq> 0 \<longrightarrow> rhs ! u ! v =
                    map_option (\<lambda>z. (1 + of_real (c1 self) * \<i>) * l + reaction self z time
                                     + of_real (sigma_r self) * l * of_real (tnr2 ! u ! v) / of_real (cmod l))
                      (state ! u ! v)))"
proof -
  from assms(2) obtain f0 where f0: "fftfreq (nrows state) = Inr f0"
    by (cases "fftfreq (nrows state)") (simp_all add: timeDerivatives_def)
  from assms(2) f0 obtain f1 where f1: "fftfreq (ncols state) = Inr f1"
    by (cases "fftfreq (ncols state)") (simp_all add: timeDerivatives_def)
  from assms(2) f0 f1 obtain mt where mt: "maxTime self = Some mt" "mt \<noteq> 0"
    by (cases "maxTime self") (simp_all add: timeDerivatives_def Let_def split: if_splits)
  from assms(2) f0 f1 mt obtain tnr1 tnr2 where tn: "interpolateNoise self (time / mt) = Inr (tnr1, tnr2)"
    by (cases "interpolateNoise self (time / mt)") (auto simp add: timeDerivatives_def Let_def)
  from assms(2) f0 f1 mt tn have sq: "nrows state = ncols state"
    by (simp add: timeDerivatives_def Let_def split: if_splits)
  let ?lap = "laplacian self (map (\<lambda>x. 2 * pi * x) f0) (map (\<lambda>x. 2 * pi * x) f1) state"
  let ?A = "fadd (fscale (1 + of_real (c1 self) * \<i>) ?lap) (reaction_field self state time)"
  let ?N = "fmul (fscale (of_real (sigma_r self)) ?lap) (of_frame tnr2)"
  let ?D = "map (map (map_option cmod)) ?lap"
  let ?C = "map2 (map2 np_div) ?N ?D"
  have rhs: "rhs = fadd ?A ?C"
    using assms(1,2) f0 f1 sq mt tn by (simp add: timeDerivatives_def Let_def split: if_splits)
  have c1: "rhs ! u ! v = lift2 (+) (?A ! u ! v) (?C ! u ! v)"
     "u < length ?A" "v < length (?A ! u)" "u < length ?C" "v < length (?C ! u)"
    using cell_map2[of u "lift2 (+)" ?A ?C v] assms(3,4) unfolding rhs fadd_def by blast+
  have c2: "?A ! u ! v = lift2 (+) (fscale (1 + of_real (c1 self) * \<i>) ?lap ! u ! v) (reaction_field self state time ! u ! v)"
     "u < length (fscale (1 + of_real (c1 self) * \<i>) ?lap)" "v < length (fscale (1 + of_real (c1 self) * \<i>) ?lap ! u)"
     "u < length (reaction_field self state time)" "v < length (reaction_field self state time ! u)"
    using cell_map2[of u "lift2 (+)" "fscale (1 + of_real (c1 self) * \<i>) ?lap" "reaction_field self state time" v] c1(2,3)
    unfolding fadd_def by blast+
  have bl: "u < length ?lap" "v < length (?lap ! u)" using c2(2,3) by (simp_all add: fscale_def)
  have bs: "u < length state" "v < length (state ! u)" using c2(4,5) by (simp_all add: reaction_field_def)
  have c3: "?C ! u ! v = np_div (?N ! u ! v) (?D ! u ! v)" "u < length ?N" "v < length (?N ! u)"
    using cell_map2[of u np_div ?N ?D v] c1(4,5) by blast+
  have c4: "?N ! u ! v = lift2 (*) (fscale (of_real (sigma_r self)) ?lap ! u ! v) (of_frame tnr2 ! u ! v)"
     "u < length (of_frame tnr2)" "v < length (of_frame tnr2 ! u)"
    using cell_map2[of u "lift2 (*)" "fscale (of_real (sigma_r self)) ?lap" "of_frame tnr2" v] c3(2,3)
    unfolding fmul_def by blast+
  have bt: "u < length tnr2" "v < length (tnr2 ! u)" using c4(2,3) by (simp_all add: of_frame_def)
  have cell: "rhs ! u ! v =
      lift2 (+) (lift2 (+) (map_option (\<lambda>z. (1 + of_real (c1 self) * \<i>) * z) (?lap ! u ! v))
                           (map_option (\<lambda>z. reaction self z time) (state ! u ! v)))
                (np_div (lift2 (*) (map_option (\<lambda>z. of_real (sigma_r self) * z) (?lap ! u ! v))
                                   (Some (of_real (tnr2 ! u ! v))))
                        (map_option cmod (?lap ! u ! v)))"
    unfolding c1(1) c2(1) c3(1) c4(1) using bl bs bt
    by (simp add: fscale_def reaction_field_def of_frame_def)
  have "(l = 0 \<longrightarrow> rhs ! u ! v = None)
               \<and> (l \<noteq> 0 \<longrightarrow> rhs ! u ! v =
                    map_option (\<lambda>z. (1 + of_real (c1 self) * \<i>) * l + reaction self z time
                                     + of_real (sigma_r self) * l * of_real (tnr2 ! u ! v) / of_real (cmod l))
                      (state ! u ! v))" if "?lap ! u ! v = Some l" for l
    unfolding cell that by (cases "state ! u ! v") (simp_all add: lift2_def np_div_def)
  then show ?thesis using f0 f1 mt(1) tn by blast
qed

theorem diffusive_rhs_unguarded_witness:
  "noiseType diffusive_run = ''diffusive''
   \<and> timeDerivatives diffusive_run flat_field 0 = Inr [[None, None], [None, None]]
   \<and> laplacian diffusive_run (map (\<lambda>x. 2 * pi * x) [0, - 1 / 2]) (map (\<lambda>x. 2 * pi * x) [0, - 1 / 2]) flat_field ! 0 ! 0 = Some 0
   \<and> [[None, None], [None, None :: cell]] ! 0 ! 0 = None"
  using diffusive_rhs_unguarded [of diffusive_run flat_field 0 "[[None, None], [None, None]]" 0 0]
    rhs_flat lap_flat
  by (simp add: diffusive_run_def init_def)

subsection \<open>The coefficients of the integrator\<close>

text \<open>
  C9. The weight of \<open>k4\<close> in the fourth-order estimate of the source is \<open>2197/4101\<close>, where
  Fehlberg's method has \<open>2197/4104\<close>: with \<open>k4 = 1\<close> and everything else zero, the two
  estimates differ.
\<close>

theorem approach4_weight_of_k4:
  "approach4 [[Some 0]] [[Some 0]] [[Some 0]] [[Some 1]] [[Some 0]] = [[Some (2197 / 4101)]]
   \<and> approach4_fehlberg [[Some 0]] [[Some 0]] [[Some 0]] [[Some 1]] [[Some 0]] = [[Some (2197 / 4104)]]
   \<and> approach4 [[Some 0]] [[Some 0]] [[Some 0]] [[Some 1]] [[Some 0]]
       \<noteq> approach4_fehlberg [[Some 0]] [[Some 0]] [[Some 0]] [[Some 1]] [[Some 0]]"
  by (simp add: approach4_def approach4_fehlberg_def eval_field)

subsection \<open>One step of the adaptive integrator\<close>

lemma bindE_eq_Inr: "bindE m f = Inr y \<longleftrightarrow> (\<exists>x. m = Inr x \<and> f x = Inr y)"
  by (cases m) simp_all

lemma corrected_step_bounds:
  fixes tol e dt :: real
  assumes "0 \<le> tol" "tol < e" "0 \<le> dt"
  shows "0 \<le> dt * ((tol / (2 * e)) powr (25 / 100))" "dt * ((tol / (2 * e)) powr (25 / 100)) \<le> dt"
proof -
  have e: "0 < e" using assms by simp
  have r: "0 \<le> tol / (2 * e)" "tol / (2 * e) \<le> 1" using assms e by simp_all
  have p: "0 \<le> (tol / (2 * e)) powr (25 / 100)" by simp
  have q: "(tol / (2 * e)) powr (25 / 100) \<le> 1" using r by (intro powr_le1) simp_all
  show "0 \<le> dt * ((tol / (2 * e)) powr (25 / 100))" using assms(3) p by simp
  show "dt * ((tol / (2 * e)) powr (25 / 100)) \<le> dt" using assms(3) q by (simp add: mult_left_le)
qed


lemma rkf45_step_time:
  assumes "rkf45_step self tol dt state t = Inr (s', t')" "0 \<le> dt"
  shows "t \<le> t' \<and> t' \<le> t + dt"
proof -
  from assms(1) obtain ks where ks: "rkf45_stages self dt state t = Inr ks"
    and r1: "(case ks of (k1, k2, k3, k4, k5, k6) \<Rightarrow>
       let a4 = approach4 state k1 k3 k4 k5; a5 = approach5 state k1 k3 k4 k5 k6
       in bindE (np_max_abs (fsub a4 a5)) (\<lambda>error.
        case error of None \<Rightarrow> Inr (a4, t + dt)
        | Some e \<Rightarrow>
            if e > tol then
              (if tol < 0 then (if e = 0 then Inl OverflowError else Inl ValueError)
               else let step = dt * ((tol / (2 * e)) powr (25 / 100)) in
                 bindE (rkf45_stages self step state t) (\<lambda>(k1, k2, k3, k4, k5, k6).
                 Inr (approach4 state k1 k3 k4 k5, t + step)))
            else Inr (a4, t + dt))) = Inr (s', t')"
    unfolding rkf45_step_def bindE_eq_Inr by blast
  obtain k1 k2 k3 k4 k5 k6 where kk: "ks = (k1, k2, k3, k4, k5, k6)" by (cases ks) auto
  from r1 obtain err where err: "np_max_abs (fsub (approach4 state k1 k3 k4 k5) (approach5 state k1 k3 k4 k5 k6)) = Inr err"
    and r2: "(case err of None \<Rightarrow> Inr (approach4 state k1 k3 k4 k5, t + dt)
        | Some e \<Rightarrow>
            if e > tol then
              (if tol < 0 then (if e = 0 then Inl OverflowError else Inl ValueError)
               else let step = dt * ((tol / (2 * e)) powr (25 / 100)) in
                 bindE (rkf45_stages self step state t) (\<lambda>(k1, k2, k3, k4, k5, k6).
                 Inr (approach4 state k1 k3 k4 k5, t + step)))
            else Inr (approach4 state k1 k3 k4 k5, t + dt)) = Inr (s', t')"
    unfolding kk by (simp add: Let_def bindE_eq_Inr) blast
  show ?thesis
  proof (cases err)
    case None
    then show ?thesis using r2 assms(2) by simp
  next
    case (Some e)
    show ?thesis
    proof (cases "e > tol")
      case False
      then show ?thesis using r2 Some assms(2) by simp
    next
      case True
      then have tol: "0 \<le> tol" using r2 Some by (auto split: if_splits)
      from r2 Some True tol have "t' = t + dt * ((tol / (2 * e)) powr (25 / 100))"
        by (auto simp add: Let_def bindE_eq_Inr split: if_splits)
      then show ?thesis using corrected_step_bounds[OF tol True assms(2)] by simp
    qed
  qed
qed

lemma rkf45_loop_acc:
  assumes "rkf45_loop self tol dt S i n state t states elapsed = Inr (ss, ts)"
  shows "\<exists>new_s new_t. ss = states @ new_s \<and> ts = elapsed @ new_t \<and> length new_t = n
           \<and> length new_s = card {j \<in> S. i \<le> j \<and> j < i + n}
           \<and> (0 \<le> dt \<longrightarrow> sorted (t # new_t) \<and> (\<forall>x \<in> set new_t. x \<le> t + real n * dt))"
  using assms
proof (induction n arbitrary: i state t states elapsed)
  case 0
  then show ?case by simp
next
  case (Suc n)
  from Suc.prems obtain s' t' where st: "rkf45_step self tol dt state t = Inr (s', t')"
    and rest: "rkf45_loop self tol dt S (Suc i) n s' t'
       (if i \<in> S then states @ [s'] else states) (elapsed @ [t']) = Inr (ss, ts)"
    by (auto simp add: bindE_eq_Inr)
  from Suc.IH[OF rest] obtain new_s new_t where
    ih: "ss = (if i \<in> S then states @ [s'] else states) @ new_s" "ts = (elapsed @ [t']) @ new_t"
        "length new_t = n" "length new_s = card {j \<in> S. Suc i \<le> j \<and> j < Suc i + n}"
        "0 \<le> dt \<longrightarrow> sorted (t' # new_t) \<and> (\<forall>x \<in> set new_t. x \<le> t' + real n * dt)"
    by blast
  let ?ns = "(if i \<in> S then [s'] else []) @ new_s"
  have a: "ss = states @ ?ns" using ih(1) by simp
  have b: "ts = elapsed @ (t' # new_t)" using ih(2) by simp
  have c: "length (t' # new_t) = Suc n" using ih(3) by simp
  have split: "{j \<in> S. i \<le> j \<and> j < i + Suc n} = (if i \<in> S then {i} else {}) \<union> {j \<in> S. Suc i \<le> j \<and> j < Suc i + n}"
    by (auto simp: Suc_le_eq order_less_le)
  have fin: "finite {j \<in> S. Suc i \<le> j \<and> j < Suc i + n}" by simp
  have d: "length ?ns = card {j \<in> S. i \<le> j \<and> j < i + Suc n}"
    unfolding split using ih(4) fin by (simp add: card_insert_if)
  have e: "sorted (t # t' # new_t) \<and> (\<forall>x \<in> set (t' # new_t). x \<le> t + real (Suc n) * dt)" if dt: "0 \<le> dt"
  proof -
    have tt: "t \<le> t'" "t' \<le> t + dt" using rkf45_step_time[OF st dt] by simp_all
    have s: "sorted (t' # new_t)" "\<forall>x \<in> set new_t. x \<le> t' + real n * dt" using ih(5) dt by simp_all
    have "\<forall>x \<in> set new_t. t \<le> x" using s(1) tt(1) by auto
    moreover have "\<forall>x \<in> set new_t. x \<le> t + real (Suc n) * dt" using s(2) tt(2) by (auto simp: algebra_simps) 
    moreover have "t' \<le> t + real (Suc n) * dt"
    proof -
      have "0 \<le> real n * dt" using dt by simp
      then show ?thesis using tt(2) by (simp add: algebra_simps)
    qed
    ultimately show ?thesis using s(1) tt(1) by simp
  qed
  show ?case using a b c d e by blast
qed

subsection \<open>Shapes are preserved\<close>

lemma square_len: "square n x \<Longrightarrow> length x = n"
  unfolding square_def by (metis length_map length_replicate)

lemma square_map2: "square n x \<Longrightarrow> square n y \<Longrightarrow> square n (map2 (map2 f) x y)"
proof -
  assume a: "square n x" "square n y"
  have l: "length x = n" "length y = n" using a square_len by blast+
  have r: "\<And>i. i < n \<Longrightarrow> length (x ! i) = n \<and> length (y ! i) = n"
  proof -
    fix i assume i: "i < n"
    have "map length x ! i = n" "map length y ! i = n" using a i unfolding square_def by simp_all
    then show "length (x ! i) = n \<and> length (y ! i) = n" using i l by simp
  qed
  show ?thesis unfolding square_def
    by (rule nth_equalityI) (simp_all add: l r)
qed

lemma square_map: "square n x \<Longrightarrow> square n (map (map f) x)"
  unfolding square_def by (simp add: comp_def)

lemma square_fadd: "square n x \<Longrightarrow> square n y \<Longrightarrow> square n (fadd x y)"
  unfolding fadd_def by (rule square_map2)
lemma square_fsub: "square n x \<Longrightarrow> square n y \<Longrightarrow> square n (fsub x y)"
  unfolding fsub_def by (rule square_map2)
lemma square_fmul: "square n x \<Longrightarrow> square n y \<Longrightarrow> square n (fmul x y)"
  unfolding fmul_def by (rule square_map2)
lemma square_fscale: "square n x \<Longrightarrow> square n (fscale c x)"
  unfolding fscale_def by (rule square_map)
lemma square_rscale: "square n x \<Longrightarrow> square n (rscale c x)"
  unfolding rscale_def by (rule square_fscale)
lemma square_reaction: "square n x \<Longrightarrow> square n (reaction_field self x t)"
  unfolding reaction_field_def by (rule square_map)
lemma square_of_frame: "square n x \<Longrightarrow> square n (of_frame x)"
  unfolding of_frame_def by (rule square_map)
lemma square_blend: "square n x \<Longrightarrow> square n y \<Longrightarrow> square n (blend t1 t2 tm x y)"
  unfolding blend_def by (rule square_map2)

lemma square_ncols: "square n x \<Longrightarrow> 0 < n \<Longrightarrow> ncols x = n"
proof -
  assume a: "square n x" "0 < n"
  then obtain r rs where x: "x = r # rs" using square_len[OF a(1)] by (cases x) auto
  have "map length x ! 0 = n" using a unfolding square_def by simp
  then show ?thesis unfolding x ncols_def by simp
qed

lemma square_grid: "square n (map (\<lambda>u. map (g u) [0..<n]) [0..<n])"
  unfolding square_def by (rule nth_equalityI) simp_all

lemma square_dft2: "square n x \<Longrightarrow> 0 < n \<Longrightarrow> square n (dft2 sg x)"
  unfolding dft2_def using square_ncols[of n x] square_len[of n x]
  by (simp add: nrows_def square_grid)

lemma square_spectral: "square n x \<Longrightarrow> 0 < n \<Longrightarrow> square n (spectral_mult fx fy x)"
  unfolding spectral_mult_def using square_ncols[of n x] square_len[of n x]
  by (simp add: nrows_def square_grid)

lemma square_laplacian: "square n x \<Longrightarrow> 0 < n \<Longrightarrow> square n (laplacian self fx fy x)"
  unfolding laplacian_def Let_def fftn_def ifftn_def np_real_def np_imag_def
  by (intro square_fadd square_map square_fscale square_dft2 square_spectral) simp_all

lemma same_shape_square: "square n x \<Longrightarrow> square n y \<Longrightarrow> same_shape x y"
  unfolding square_def same_shape_def by simp

subsection \<open>When the right-hand side and the loop return\<close>

lemma py_index_ok: "0 \<le> p \<Longrightarrow> p < int (length xs) \<Longrightarrow> py_index xs p = Inr (xs ! nat p)"
  by (simp add: py_index_def)

lemma frame_index_bounds:
  fixes \<tau> :: real
  assumes "0 \<le> \<tau>" "\<tau> \<le> 1" "0 < F"
  shows "0 \<le> \<lfloor>real_of_int (int F - 1) * \<tau>\<rfloor>" "\<lceil>real_of_int (int F - 1) * \<tau>\<rceil> < int F"
        "\<lfloor>real_of_int (int F - 1) * \<tau>\<rfloor> < int F" "0 \<le> \<lceil>real_of_int (int F - 1) * \<tau>\<rceil>"
        "nat \<lfloor>real_of_int (int F - 1) * \<tau>\<rfloor> < F" "nat \<lceil>real_of_int (int F - 1) * \<tau>\<rceil> < F"
proof -
  let ?x = "real_of_int (int F - 1) * \<tau>"
  have c: "0 \<le> real_of_int (int F - 1)" using assms(3) by simp
  have x0: "0 \<le> ?x" using c assms(1) by simp
  have "?x \<le> real_of_int (int F - 1) * 1" using c assms(2) by (intro mult_left_mono) simp_all
  then have x1: "?x \<le> real_of_int (int F - 1)" by simp
  show "0 \<le> \<lfloor>?x\<rfloor>" using x0 by simp
  show w: "\<lceil>?x\<rceil> < int F" using x1 by (simp add: ceiling_less_iff)
  have "\<lfloor>?x\<rfloor> \<le> \<lceil>?x\<rceil>" by (rule floor_le_ceiling)
  then show v: "\<lfloor>?x\<rfloor> < int F" using w by linarith
  show "0 \<le> \<lceil>?x\<rceil>" using x0 by (simp add: ceiling_le_iff le_ceiling_iff) 
  show "nat \<lfloor>?x\<rfloor> < F" using v assms(3) by linarith
  show "nat \<lceil>?x\<rceil> < F" using w assms(3) by linarith
qed

lemma list_all_nth: "list_all P xs \<Longrightarrow> i < length xs \<Longrightarrow> P (xs ! i)"
  by (simp add: list_all_length)

lemma interpolateNoise_ok:
  assumes "buffers_ready self n mt" "0 \<le> \<tau>" "\<tau> \<le> 1"
  shows "\<exists>tnr1 tnr2. interpolateNoise self \<tau> = Inr (tnr1, tnr2) \<and> square n tnr1 \<and> square n tnr2"
proof -
  from assms(1) obtain r1 r2 where r: "nr1 self = Some r1" "nr2 self = Some r2" "r1 \<noteq> []"
      "length r2 = length r1" "list_all (square n) r1" "list_all (square n) r2"
    unfolding buffers_ready_def by (auto split: option.splits)
  let ?F = "length r1"
  let ?p1 = "\<lfloor>real_of_int (int ?F - 1) * \<tau>\<rfloor>"
  let ?p2 = "\<lceil>real_of_int (int ?F - 1) * \<tau>\<rceil>"
  have F: "0 < ?F" using r(3) by simp
  note b = frame_index_bounds[OF assms(2,3) F]
  have look: "py_index (linspace01 ?F) ?p1 = Inr (linspace01 ?F ! nat ?p1)"
    "py_index (linspace01 ?F) ?p2 = Inr (linspace01 ?F ! nat ?p2)"
    "py_index r1 ?p1 = Inr (r1 ! nat ?p1)" "py_index r1 ?p2 = Inr (r1 ! nat ?p2)"
    "py_index r2 ?p1 = Inr (r2 ! nat ?p1)" "py_index r2 ?p2 = Inr (r2 ! nat ?p2)"
    using b r(4) by (simp_all add: py_index_ok linspace01_def)
  have sq: "square n (r1 ! nat ?p1)" "square n (r1 ! nat ?p2)" "square n (r2 ! nat ?p1)" "square n (r2 ! nat ?p2)"
    using b(5,6) r(4) list_all_nth[OF r(5)] list_all_nth[OF r(6)] by metis+
  show ?thesis
    unfolding interpolateNoise_def r(1,2) Let_def option.case look bindE_Inr
    using sq by (simp add: square_blend)
qed

lemma fftfreq_ok: "0 < n \<Longrightarrow> \<exists>f. fftfreq n = Inr f"
  by (simp add: fftfreq_def)

lemma timeDerivatives_ok:
  assumes "buffers_ready self n mt" "0 < mt" "0 < n" "square n state" "0 \<le> tm" "tm \<le> mt"
  shows "\<exists>rhs. timeDerivatives self state tm = Inr rhs \<and> square n rhs"
proof -
  have nr: "nrows state = n" "ncols state = n"
    using square_len[OF assms(4)] square_ncols[OF assms(4,3)] by (simp_all add: nrows_def)
  obtain f where f: "fftfreq n = Inr f" using fftfreq_ok[OF assms(3)] by blast
  have mt: "maxTime self = Some mt" using assms(1) unfolding buffers_ready_def by simp
  have tau: "0 \<le> tm / mt" "tm / mt \<le> 1" using assms(2,5,6) by simp_all
  obtain tnr1 tnr2 where tn: "interpolateNoise self (tm / mt) = Inr (tnr1, tnr2)" "square n tnr1" "square n tnr2"
    using interpolateNoise_ok[OF assms(1) tau] by blast
  let ?lap = "laplacian self (map (\<lambda>x. 2 * pi * x) f) (map (\<lambda>x. 2 * pi * x) f) state"
  have lap: "square n ?lap" using square_laplacian[OF assms(4,3)] .
  have sh: "same_shape tnr1 state" "same_shape tnr2 state"
    using same_shape_square tn(2,3) assms(4) by blast+
  have d: "square n (map2 (map2 np_div) (fmul (fscale (of_real (sigma_r self)) ?lap) (of_frame tnr2))
                              (map (map (map_option cmod)) ?lap))"
    by (intro square_map2 square_fmul square_fscale square_of_frame square_map lap tn)
  show ?thesis
    unfolding timeDerivatives_def nr f bindE_Inr Let_def mt option.case tn(1)
    using assms(2) sh lap d tn(2,3) assms(4)
    by (auto intro!: square_fadd square_fscale square_reaction square_fmul square_of_frame)
qed

lemma rkf45_stages_ok:
  assumes br: "buffers_ready self n mt" and mt: "0 < mt" and n: "0 < n" and sq: "square n state"
    and t: "0 \<le> t" "0 \<le> step" "t + step \<le> mt"
  shows "\<exists>k1 k2 k3 k4 k5 k6. rkf45_stages self step state t = Inr (k1, k2, k3, k4, k5, k6)
           \<and> square n k1 \<and> square n k2 \<and> square n k3 \<and> square n k4 \<and> square n k5 \<and> square n k6"
proof -
  note td = timeDerivatives_ok[OF br mt n]
  note sqi = square_fadd square_rscale
  obtain d1 where d1: "timeDerivatives self state t = Inr d1" "square n d1"
    using td[OF sq, of t] t by auto
  define k1 where "k1 = rscale step d1"
  have k1: "square n k1" unfolding k1_def by (intro sqi d1)
  obtain d2 where d2: "timeDerivatives self (fadd state (rscale (w ! 1 ! 0) k1)) (t + step / 4) = Inr d2" "square n d2"
    using td[of "fadd state (rscale (w ! 1 ! 0) k1)" "t + step / 4"] t sq k1 by (auto intro!: sqi)
  define k2 where "k2 = rscale step d2"
  have k2: "square n k2" unfolding k2_def by (intro sqi d2)
  obtain d3 where d3: "timeDerivatives self
              (fadd (fadd state (rscale (w ! 2 ! 0) k1)) (rscale (w ! 2 ! 1) k2))
              (t + 3 * step / 8) = Inr d3" "square n d3"
    using td[of "fadd (fadd state (rscale (w ! 2 ! 0) k1)) (rscale (w ! 2 ! 1) k2)" "t + 3 * step / 8"] t sq k1 k2
    by (auto intro!: sqi)
  define k3 where "k3 = rscale step d3"
  have k3: "square n k3" unfolding k3_def by (intro sqi d3)
  obtain d4 where d4: "timeDerivatives self
              (fadd (fadd (fadd state (rscale (w ! 3 ! 0) k1)) (rscale (w ! 3 ! 1) k2))
                    (rscale (w ! 3 ! 2) k3))
              (t + 12 * step / 13) = Inr d4" "square n d4"
    using td[of "fadd (fadd (fadd state (rscale (w ! 3 ! 0) k1)) (rscale (w ! 3 ! 1) k2))
                    (rscale (w ! 3 ! 2) k3)" "t + 12 * step / 13"] t sq k1 k2 k3
    by (auto intro!: sqi)
  define k4 where "k4 = rscale step d4"
  have k4: "square n k4" unfolding k4_def by (intro sqi d4)
  obtain d5 where d5: "timeDerivatives self
              (fadd (fadd (fadd (fadd state (rscale (w ! 4 ! 0) k1)) (rscale (w ! 4 ! 1) k2))
                          (rscale (w ! 4 ! 2) k3)) (rscale (w ! 4 ! 3) k4))
              (t + step) = Inr d5" "square n d5"
    using td[of "fadd (fadd (fadd (fadd state (rscale (w ! 4 ! 0) k1)) (rscale (w ! 4 ! 1) k2))
                          (rscale (w ! 4 ! 2) k3)) (rscale (w ! 4 ! 3) k4)" "t + step"] t sq k1 k2 k3 k4
    by (auto intro!: sqi)
  define k5 where "k5 = rscale step d5"
  have k5: "square n k5" unfolding k5_def by (intro sqi d5)
  obtain d6 where d6: "timeDerivatives self
              (fadd (fadd (fadd (fadd (fadd state (rscale (w ! 5 ! 0) k1)) (rscale (w ! 5 ! 1) k2))
                                (rscale (w ! 5 ! 2) k3)) (rscale (w ! 5 ! 3) k4))
                    (rscale (w ! 5 ! 4) k5))
              (t + step / 2) = Inr d6" "square n d6"
    using td[of "fadd (fadd (fadd (fadd (fadd state (rscale (w ! 5 ! 0) k1)) (rscale (w ! 5 ! 1) k2))
                                (rscale (w ! 5 ! 2) k3)) (rscale (w ! 5 ! 3) k4))
                    (rscale (w ! 5 ! 4) k5)" "t + step / 2"] t sq k1 k2 k3 k4 k5
    by (auto intro!: sqi)
  define k6 where "k6 = rscale step d6"
  have k6: "square n k6" unfolding k6_def by (intro sqi d6)
  have "rkf45_stages self step state t = Inr (k1, k2, k3, k4, k5, k6)"
    unfolding rkf45_stages_def d1(1) bindE_Inr Let_def k1_def[symmetric] d2(1) k2_def[symmetric]
      d3(1) k3_def[symmetric] d4(1) k4_def[symmetric] d5(1) k5_def[symmetric] d6(1) k6_def[symmetric]
    by (rule refl)
  then show ?thesis using k1 k2 k3 k4 k5 k6 by blast
qed

lemma square_approach4:
  "square n s \<Longrightarrow> square n k1 \<Longrightarrow> square n k3 \<Longrightarrow> square n k4 \<Longrightarrow> square n k5
     \<Longrightarrow> square n (approach4 s k1 k3 k4 k5)"
  unfolding approach4_def by (intro square_fadd square_fsub square_rscale)

lemma square_approach5:
  "square n s \<Longrightarrow> square n k1 \<Longrightarrow> square n k3 \<Longrightarrow> square n k4 \<Longrightarrow> square n k5 \<Longrightarrow> square n k6
     \<Longrightarrow> square n (approach5 s k1 k3 k4 k5 k6)"
  unfolding approach5_def by (intro square_fadd square_fsub square_rscale)

lemma np_max_abs_ok:
  assumes "square n x" "0 < n"
  shows "\<exists>e. np_max_abs x = Inr e"
proof -
  obtain r rs where x: "x = r # rs" using square_len[OF assms(1)] assms(2) by (cases x) auto
  have "length r = n" using square_ncols[OF assms] unfolding x ncols_def by simp
  then have "r \<noteq> []" using assms(2) by auto
  then have "concat x \<noteq> []" unfolding x by simp
  then show ?thesis unfolding np_max_abs_def Let_def by simp
qed

lemma rkf45_step_ok:
  assumes br: "buffers_ready self n mt" and mt: "0 < mt" and n: "0 < n" and sq: "square n state"
    and t: "0 \<le> t" "0 \<le> dt" "t + dt \<le> mt" and tol: "0 \<le> tol"
  shows "\<exists>s' t'. rkf45_step self tol dt state t = Inr (s', t') \<and> square n s'"
proof -
  obtain k1 k2 k3 k4 k5 k6 where ks: "rkf45_stages self dt state t = Inr (k1, k2, k3, k4, k5, k6)"
    and ksq: "square n k1" "square n k2" "square n k3" "square n k4" "square n k5" "square n k6"
    using rkf45_stages_ok[OF br mt n sq t] by blast
  let ?a4 = "approach4 state k1 k3 k4 k5"
  let ?a5 = "approach5 state k1 k3 k4 k5 k6"
  have a4: "square n ?a4" by (intro square_approach4 sq ksq)
  have a5: "square n ?a5" by (intro square_approach5 sq ksq)
  obtain err where err: "np_max_abs (fsub ?a4 ?a5) = Inr err"
    using np_max_abs_ok[OF square_fsub[OF a4 a5] n] by blast
  show ?thesis
  proof (cases err)
    case None
    then show ?thesis unfolding rkf45_step_def ks using err a4 by simp
  next
    case (Some e)
    show ?thesis
    proof (cases "e > tol")
      case False
      then show ?thesis unfolding rkf45_step_def ks using err a4 Some by simp
    next
      case True
      let ?step = "dt * ((tol / (2 * e)) powr (25 / 100))"
      have sb: "0 \<le> ?step" "?step \<le> dt" using corrected_step_bounds[OF tol True t(2)] by simp_all
      have "t + ?step \<le> mt" using sb(2) t(3) by linarith
      then obtain j1 j2 j3 j4 j5 j6 where js: "rkf45_stages self ?step state t = Inr (j1, j2, j3, j4, j5, j6)"
        and jsq: "square n j1" "square n j2" "square n j3" "square n j4" "square n j5" "square n j6"
        using rkf45_stages_ok[OF br mt n sq t(1) sb(1)] by blast
      have "square n (approach4 state j1 j3 j4 j5)" by (intro square_approach4 sq jsq)
      then show ?thesis unfolding rkf45_step_def ks using err Some True tol js by (simp add: Let_def)
    qed
  qed
qed

lemma rkf45_loop_ok:
  assumes br: "buffers_ready self n mt" and mt: "0 < mt" and n: "0 < n" and tol: "0 \<le> tol" and dt: "0 \<le> dt"
  shows "square n state \<Longrightarrow> 0 \<le> t \<Longrightarrow> t + real m * dt \<le> mt
          \<Longrightarrow> \<exists>ss ts. rkf45_loop self tol dt S i m state t states elapsed = Inr (ss, ts)"
proof (induction m arbitrary: i state t states elapsed)
  case 0
  then show ?case by simp
next
  case (Suc m)
  have "0 \<le> real m * dt" using dt by simp
  then have b: "t + dt \<le> mt" using Suc.prems(3) by (simp add: algebra_simps)
  obtain s' t' where st: "rkf45_step self tol dt state t = Inr (s', t')" "square n s'"
    using rkf45_step_ok[OF br mt n Suc.prems(1,2) dt b tol] by blast
  have tt: "t \<le> t'" "t' \<le> t + dt" using rkf45_step_time[OF st(1) dt] by simp_all
  have "t' + real m * dt \<le> mt" using tt(2) Suc.prems(3) by (simp add: algebra_simps)
  moreover have "0 \<le> t'" using tt(1) Suc.prems(2) by simp
  ultimately obtain ss ts where "rkf45_loop self tol dt S (Suc i) m s' t'
       (if i \<in> S then states @ [s'] else states) (elapsed @ [t']) = Inr (ss, ts)"
    using Suc.IH[OF st(2)] by blast
  then show ?case using st(1) by simp
qed

subsection \<open>The whole run\<close>

lemma getRandom_ok:
  assumes "length u = n * n"
  shows "\<exists>g. getRandom u (int n) = Inr g \<and> square n g"
proof -
  have len: "min (length u - i * n) n = n" if "i < n" for i
  proof -
    have "Suc i * n \<le> n * n" using that by (intro mult_le_mono1) simp
    then show ?thesis using assms by simp
  qed
  have "square n (map (\<lambda>i. take n (drop (i * n) u)) [0..<n])"
    unfolding square_def by (rule nth_equalityI) (simp_all add: len)
  moreover have "nat (int n * int n) = n * n" by (simp add: nat_mult_distrib)
  ultimately show ?thesis unfolding getRandom_def using assms by simp
qed

lemma getInitialCondition_ok:
  assumes "ic self = ''r''" "msize self = int n" "length u1 = n * n" "length u2 = n * n"
  shows "\<exists>f0. getInitialCondition self u1 u2 = (self\<lparr>a := Some f0\<rparr>, Inr f0) \<and> square n f0"
proof -
  obtain g1 where g1: "getRandom u1 (int n) = Inr g1" "square n g1" using getRandom_ok[OF assms(3)] by blast
  obtain g2 where g2: "getRandom u2 (int n) = Inr g2" "square n g2" using getRandom_ok[OF assms(4)] by blast
  show ?thesis unfolding getInitialCondition_def using assms(1,2) g1 g2
    by (simp add: Let_def square_map2)
qed

lemma list_all_tabulate: "(\<And>i. i < N \<Longrightarrow> P (g i)) \<Longrightarrow> list_all P (map g [0..<N])"
  by (simp add: list_all_iff)

lemma gradient_axis0_ok:
  assumes "2 \<le> length raw" "2 \<le> n" "list_all (square n) raw"
  shows "\<exists>rate. gradient_axis0 raw = Inr rate \<and> length rate = length raw \<and> list_all (square n) rate"
proof -
  have fr: "square n m" if "m \<in> set raw" for m using assms(3) that by (simp add: list_all_iff)
  have ok: "\<not> (\<exists>m \<in> set raw. length m < 2 \<or> (\<exists>r \<in> set m. length r < 2))"
  proof
    assume "\<exists>m \<in> set raw. length m < 2 \<or> (\<exists>r \<in> set m. length r < 2)"
    then obtain m where m: "m \<in> set raw" "length m < 2 \<or> (\<exists>r \<in> set m. length r < 2)" by blast
    have s: "map length m = replicate n n" using fr[OF m(1)] unfolding square_def .
    have l: "length m = n" using square_len[OF fr[OF m(1)]] .
    have "length r = n" if "r \<in> set m" for r
    proof -
      have "length r \<in> set (map length m)" using that by simp
      then show ?thesis unfolding s by simp
    qed
    then show False using m(2) l assms(2) by auto
  qed
  let ?g = "\<lambda>i. if i = 0 then map2 (map2 (-)) (raw ! 1) (raw ! 0)
                  else if i = length raw - 1 then map2 (map2 (-)) (raw ! (length raw - 1)) (raw ! (length raw - 2))
                  else map (map (\<lambda>x. x / 2)) (map2 (map2 (-)) (raw ! (i + 1)) (raw ! (i - 1)))"
  have nth: "square n (raw ! i)" if "i < length raw" for i using fr that by simp
  have g: "square n (?g i)" if "i < length raw" for i
  proof -
    have a: "square n (map2 (map2 (-)) (raw ! 1) (raw ! 0))"
      using assms(1) by (intro square_map2 nth) linarith+
    have b: "square n (map2 (map2 (-)) (raw ! (length raw - 1)) (raw ! (length raw - 2)))"
      using assms(1) by (intro square_map2 nth) linarith+
    have c: "square n (map (map (\<lambda>x. x / 2)) (map2 (map2 (-)) (raw ! (i + 1)) (raw ! (i - 1))))"
      if "i \<noteq> length raw - 1"
      using that \<open>i < length raw\<close> by (intro square_map square_map2 nth) linarith+
    show ?thesis using a b c by (simp only: if_split) blast
  qed
  have "list_all (square n) (map ?g [0..<length raw])"
    by (rule list_all_tabulate) (rule g)
  moreover have "gradient_axis0 raw = Inr (map ?g [0..<length raw])"
    unfolding gradient_axis0_def gradient1_def Let_def using ok assms(1) by simp
  ultimately show ?thesis by simp
qed

lemma gradient_axis0_small:
  assumes "length raw = F" "list_all (square n) raw" "F < 2 \<or> n < 2"
  shows "gradient_axis0 raw = Inl ValueError"
proof (cases "F < 2")
  case True
  then show ?thesis unfolding gradient_axis0_def using assms(1) by simp
next
  case False
  then have n: "n < 2" using assms(3) by simp
  from False assms(1) obtain m ms where raw: "raw = m # ms" by (cases raw) auto
  have "square n m" using assms(2) unfolding raw by simp
  then have "length m < 2" using square_len n by blast
  then show ?thesis unfolding gradient_axis0_def raw by simp
qed

lemma solveRKF45_InrD:
  assumes "solveRKF45 self cNoise u1 u2 dt ntimes S tol = (self', Inr (states, elapsed))"
  shows "\<exists>self1 state. getInitialCondition self u1 u2 = (self1, Inr state)
           \<and> rkf45_loop self' tol dt S 0 ntimes state 0 [state] [] = Inr (states, elapsed)"
  using assms unfolding solveRKF45_def
  by (auto simp add: Let_def split: prod.splits sum.splits)

lemma getInitialCondition_a:
  "getInitialCondition self u1 u2 = (self1, Inr state) \<Longrightarrow> a self1 = Some state"
  unfolding getInitialCondition_def
  by (auto simp add: Let_def getGaussian_def split: if_splits sum.splits)

lemma solveRKF45_lengths:
  assumes "solveRKF45 self cNoise u1 u2 dt ntimes S tol = (self', Inr (states, elapsed))"
  shows "length states = 1 + card {j \<in> S. j < ntimes} \<and> length elapsed = ntimes"
proof -
  obtain self1 state where "rkf45_loop self' tol dt S 0 ntimes state 0 [state] [] = Inr (states, elapsed)"
    using solveRKF45_InrD[OF assms] by blast
  from rkf45_loop_acc[OF this] show ?thesis by auto
qed


lemma solveRKF45_ok:
  assumes ic: "ic self = ''r''" and ms: "msize self = int n" "2 \<le> n"
    and u: "length u1 = n * n" "length u2 = n * n"
    and fr: "py_int (noiseSpeed self * real ntimes) = int F" "2 \<le> F"
    and gen: "generates cNoise F n"
    and dt: "0 < dt" and tol: "0 \<le> tol"
  shows "\<exists>self' states elapsed. solveRKF45 self cNoise u1 u2 dt ntimes S tol = (self', Inr (states, elapsed))"
proof -
  obtain f0 where f0: "getInitialCondition self u1 u2 = (self\<lparr>a := Some f0\<rparr>, Inr f0)" "square n f0"
    using getInitialCondition_ok[OF ic ms(1) u] by blast
  let ?s1 = "self\<lparr>a := Some f0\<rparr>"
  let ?ex = "case noiseArgs ?s1 ''beta'' of Some b \<Rightarrow> b | None \<Rightarrow> 2"
  let ?sd = "case noiseArgs ?s1 ''std'' of Some sd \<Rightarrow> sd | None \<Rightarrow> 0.01"
  obtain raw where raw: "cNoise ?ex (int F, int n, int n) ?sd = Inr raw" "length raw = F" "list_all (square n) raw"
    using gen unfolding generates_def by blast
  obtain rate where rate: "gradient_axis0 raw = Inr rate" "length rate = length raw" "list_all (square n) rate"
    using gradient_axis0_ok[of raw n] raw(2,3) fr(2) ms(2) by auto
  let ?mt = "real (ntimes + 2) * dt"
  let ?s3 = "?s1\<lparr>nr1 := Some raw, nr2 := Some raw\<rparr>\<lparr>nr1 := Some rate, maxTime := Some ?mt\<rparr>"
  have br: "buffers_ready ?s3 n ?mt"
    unfolding buffers_ready_def using rate raw fr(2) by auto
  have mt: "0 < ?mt" using dt by simp
  have n: "0 < n" using ms(2) by simp
  have le: "0 + real ntimes * dt \<le> ?mt" using dt by (simp add: algebra_simps)
  obtain ss ts where "rkf45_loop ?s3 tol dt S 0 ntimes f0 0 [f0] [] = Inr (ss, ts)"
    using rkf45_loop_ok[OF br mt n tol less_imp_le[OF dt] f0(2) order_refl le] by blast
  then have "solveRKF45 self cNoise u1 u2 dt ntimes S tol = (?s3, Inr (ss, ts))"
    unfolding solveRKF45_def f0(1) using raw(1) rate(1) fr(1) ms(1)
    by (simp add: Let_def)
  then show ?thesis by blast
qed

lemma solveRKF45_small:
  assumes ic: "ic self = ''r''" and ms: "msize self = int n"
    and u: "length u1 = n * n" "length u2 = n * n"
    and fr: "py_int (noiseSpeed self * real ntimes) = int F" "F < 2 \<or> n < 2"
    and gen: "generates cNoise F n"
  shows "\<exists>self' f0 raw. solveRKF45 self cNoise u1 u2 dt ntimes S tol = (self', Inl ValueError)
           \<and> a self' = Some f0 \<and> square n f0 \<and> nr1 self' = Some raw \<and> nr2 self' = Some raw \<and> length raw = F"
proof -
  obtain f0 where f0: "getInitialCondition self u1 u2 = (self\<lparr>a := Some f0\<rparr>, Inr f0)" "square n f0"
    using getInitialCondition_ok[OF ic ms(1) u] by blast
  let ?s1 = "self\<lparr>a := Some f0\<rparr>"
  let ?ex = "case noiseArgs ?s1 ''beta'' of Some b \<Rightarrow> b | None \<Rightarrow> 2"
  let ?sd = "case noiseArgs ?s1 ''std'' of Some sd \<Rightarrow> sd | None \<Rightarrow> 0.01"
  obtain raw where raw: "cNoise ?ex (int F, int n, int n) ?sd = Inr raw" "length raw = F" "list_all (square n) raw"
    using gen unfolding generates_def by blast
  have g: "gradient_axis0 raw = Inl ValueError" using gradient_axis0_small[OF raw(2,3) fr(2)] .
  have "solveRKF45 self cNoise u1 u2 dt ntimes S tol = (?s1\<lparr>nr1 := Some raw, nr2 := Some raw\<rparr>, Inl ValueError)"
    unfolding solveRKF45_def f0(1) using raw(1) g fr(1) ms(1) by (simp add: Let_def)
  then show ?thesis using f0(2) raw(2) by auto
qed




lemma generates_still_noise: "generates still_noise F n"
  unfolding generates_def still_noise_def square_def by (simp add: list_all_iff)

lemma scenario_frames: "py_int (noiseSpeed scenario * 10) = 5"
  by (simp add: scenario_def init_def py_int_def)

lemma scenario_returns:
  "\<exists>self' states elapsed. solveRKF45 scenario still_noise (replicate 64 (1 / 2)) (replicate 64 (1 / 2))
       (1 / 100) 10 {0, 5, 9} (1 / 10 ^ 4) = (self', Inr (states, elapsed))"
  by (rule solveRKF45_ok[where n = 8 and F = 5])
     (simp_all add: scenario_frames generates_still_noise, simp_all add: scenario_def init_def)

lemma saved_count: "card {j \<in> {0, 5, 9}. j < (10::nat)} = 3"
proof -
  have "{j \<in> {0, 5, 9}. j < (10::nat)} = {0, 5, 9}" by auto
  then show ?thesis by simp
qed

lemma fast_noise_returns:
  "\<exists>self' states elapsed. solveRKF45 fast_noise still_noise (replicate 4 (1 / 2)) (replicate 4 (1 / 2))
       (1 / 100) 2 {} (1 / 10 ^ 4) = (self', Inr (states, elapsed))"
  by (rule solveRKF45_ok[where n = 2 and F = 4])
     (simp_all add: generates_still_noise, simp_all add: fast_noise_def init_def py_int_def)

lemma rkf45_loop_steps:
  assumes "rkf45_loop self tol dt S i n state t states elapsed = Inr (ss, ts)"
  shows "\<exists>new new_t. length new = n \<and> length new_t = n \<and> ts = elapsed @ new_t
           \<and> ss = states @ map (\<lambda>j. new ! (j - i)) (filter (\<lambda>j. j \<in> S) [i..<i + n])
           \<and> (\<forall>k < n. rkf45_step self tol dt ((state # new) ! k) ((t # new_t) ! k)
                         = Inr (new ! k, new_t ! k))"
  using assms
proof (induction n arbitrary: i state t states elapsed)
  case 0
  then show ?case by simp
next
  case (Suc n)
  from Suc.prems obtain s' t' where st: "rkf45_step self tol dt state t = Inr (s', t')"
    and rest: "rkf45_loop self tol dt S (Suc i) n s' t'
       (if i \<in> S then states @ [s'] else states) (elapsed @ [t']) = Inr (ss, ts)"
    by (auto simp add: bindE_eq_Inr)
  from Suc.IH[OF rest] obtain new new_t where
    ih: "length new = n" "length new_t = n" "ts = (elapsed @ [t']) @ new_t"
        "ss = (if i \<in> S then states @ [s'] else states)
               @ map (\<lambda>j. new ! (j - Suc i)) (filter (\<lambda>j. j \<in> S) [Suc i..<Suc i + n])"
        "\<forall>k < n. rkf45_step self tol dt ((s' # new) ! k) ((t' # new_t) ! k) = Inr (new ! k, new_t ! k)"
    by blast
  have a: "length (s' # new) = Suc n" "length (t' # new_t) = Suc n" "ts = elapsed @ (t' # new_t)"
    using ih(1,2,3) by simp_all
  have up: "[i..<i + Suc n] = i # [Suc i..<Suc i + n]" by (simp add: upt_rec)
  have m: "map (\<lambda>j. (s' # new) ! (j - i)) (filter (\<lambda>j. j \<in> S) [Suc i..<Suc i + n])
         = map (\<lambda>j. new ! (j - Suc i)) (filter (\<lambda>j. j \<in> S) [Suc i..<Suc i + n])"
  proof (rule map_cong[OF refl])
    fix j assume "j \<in> set (filter (\<lambda>j. j \<in> S) [Suc i..<Suc i + n])"
    then have "j \<in> set [Suc i..<Suc i + n]" by (simp only: set_filter) blast
    then have "Suc i \<le> j" by (simp only: set_upt atLeastLessThan_iff)
    then have "j - i = Suc (j - Suc i)" by simp
    then show "(s' # new) ! (j - i) = new ! (j - Suc i)" by simp
  qed
  have d: "ss = states @ map (\<lambda>j. (s' # new) ! (j - i)) (filter (\<lambda>j. j \<in> S) [i..<i + Suc n])"
    unfolding up using ih(4) m by simp
  have e: "rkf45_step self tol dt ((state # s' # new) ! k) ((t # t' # new_t) ! k)
             = Inr ((s' # new) ! k, (t' # new_t) ! k)" if "k < Suc n" for k
  proof (cases k)
    case 0
    then show ?thesis using st by simp
  next
    case (Suc j)
    then have "j < n" using that by simp
    then show ?thesis using ih(5) Suc by simp
  qed
  show ?case using a d e by blast
qed

lemma solveRKF45_steps:
  assumes "solveRKF45 self cNoise u1 u2 dt ntimes S tol = (self', Inr (states, elapsed))"
  shows "\<exists>fields. length fields = ntimes + 1
           \<and> snd (getInitialCondition self u1 u2) = Inr (fields ! 0)
           \<and> a self' = Some (fields ! 0)
           \<and> (\<forall>k < ntimes. rkf45_step self' tol dt (fields ! k) ((0 # elapsed) ! k)
                               = Inr (fields ! Suc k, elapsed ! k))
           \<and> states = fields ! 0 # map (\<lambda>j. fields ! Suc j) (filter (\<lambda>j. j \<in> S) [0..<ntimes])"
proof -
  from assms obtain self1 state raw rate where
    ic: "getInitialCondition self u1 u2 = (self1, Inr state)"
    and s: "self' = self1\<lparr>nr1 := Some raw, nr2 := Some raw\<rparr>\<lparr>nr1 := Some rate,
                                          maxTime := Some (real (ntimes + 2) * dt)\<rparr>"
    and l: "rkf45_loop self' tol dt S 0 ntimes state 0 [state] [] = Inr (states, elapsed)"
    unfolding solveRKF45_def by (auto simp add: Let_def split: prod.splits sum.splits)
  from rkf45_loop_steps[OF l] obtain new new_t where
    n: "length new = ntimes" "length new_t = ntimes" "elapsed = new_t"
       "states = [state] @ map (\<lambda>j. new ! (j - 0)) (filter (\<lambda>j. j \<in> S) [0..<0 + ntimes])"
       "\<forall>k < ntimes. rkf45_step self' tol dt ((state # new) ! k) ((0 # new_t) ! k)
                         = Inr (new ! k, new_t ! k)"
    by auto
  have a: "a self' = Some state" using getInitialCondition_a[OF ic] s by simp
  show ?thesis
    using n a ic by (intro exI[of _ "state # new"]) simp
qed

subsection \<open>Runs on spatially constant fields\<close>

text \<open>On a grid of side 2 the Laplacian of a constant field is zero, so the right-hand side
  of a constant field is constant, and a step of the integrator can be evaluated exactly.\<close>

lemma lap_uniform:
  "h self \<noteq> 0 \<Longrightarrow> laplacian self [0, - pi] [0, - pi] (uniform z) = uniform 0"
  by (simp add: laplacian_def eval_field uniform_def)

lemma fftfreq2: "fftfreq 2 = Inr [0, - 1 / 2]"
  by (simp add: fftfreq_def upt2)

lemma td_uniform:
  assumes "maxTime self = Some mt" "mt \<noteq> 0"
    and "interpolateNoise self (tm / mt) = Inr ([[v, v], [v, v]], tnr2)"
    and "noiseType self \<noteq> ''diffusive''" "noiseType self \<noteq> ''multiplicative''" "h self \<noteq> 0"
  shows "timeDerivatives self (uniform z) tm
           = Inr (uniform (reaction self z tm + of_real (sigma_r self * v) * (1 + \<i>)))"
proof -
  have sh: "nrows (uniform z) = 2" "ncols (uniform z) = 2" "same_shape [[v, v], [v, v]] (uniform z)"
    by (simp_all add: nrows_def ncols_def uniform_def same_shape_def)
  have fx: "map (\<lambda>x. 2 * pi * x) [0, - 1 / 2] = [0, - pi]" by simp
  show ?thesis
    unfolding timeDerivatives_def sh fftfreq2 bindE_Inr Let_def fx assms(1) option.case
    using assms(2,4,5) sh(3)
    by (simp add: assms(3) lap_uniform[OF assms(6)])
       (simp add: uniform_def eval_field of_frame_def reaction_field_def algebra_simps)
qed

lemma interp_driven:
  assumes "0 \<le> \<tau>" "\<tau> < 1"
  shows "\<exists>tnr2. interpolateNoise driven_run \<tau> = Inr ([[1, 1], [1, 1]], tnr2)"
proof (cases "\<tau> = 0")
  case True
  then show ?thesis
    by (simp add: interpolateNoise_def driven_run_def driven_def init_def linspace01_def py_index_def upt2)
next
  case False
  then have p: "\<lfloor>\<tau>\<rfloor> = 0" "\<lceil>\<tau>\<rceil> = 1" using assms by linarith+
  have w: "\<bar>\<tau>\<bar> + \<bar>1 - \<tau>\<bar> = 1" using assms by simp
  show ?thesis using w
    by (simp add: interpolateNoise_def driven_run_def driven_def init_def linspace01_def py_index_def upt2 p blend_def)
qed

lemma uniform_inject: "uniform x = uniform y \<longleftrightarrow> x = y" by (simp add: uniform_def)
lemma diagonal_inject: "diagonal x = diagonal y \<longleftrightarrow> x = y" by (simp add: diagonal_def)
lemma diagonal_0: "diagonal 0 = 0" by (simp add: diagonal_def complex_eq_iff)

lemma rscale_uniform: "rscale c (uniform (diagonal x)) = uniform (diagonal (c * x))"
  by (simp add: rscale_def fscale_def uniform_def diagonal_def complex_eq_iff)

lemma fadd_uniform: "fadd (uniform (diagonal x)) (uniform (diagonal y)) = uniform (diagonal (x + y))"
  by (simp add: fadd_def uniform_def diagonal_def lift2_def complex_eq_iff)

lemma fsub_uniform: "fsub (uniform (diagonal x)) (uniform (diagonal y)) = uniform (diagonal (x - y))"
  by (simp add: fsub_def uniform_def diagonal_def lift2_def complex_eq_iff)

lemma reaction_diagonal:
  assumes "c2 self = 0"
  shows "reaction self (diagonal x) t = diagonal (x - 2 * x ^ 3)"
proof -
  have "(cmod (Complex x x))\<^sup>2 = 2 * x\<^sup>2" by (simp add: cmod_power2)
  then show ?thesis unfolding reaction_def diagonal_def assms
    by (simp add: complex_eq_iff power2_eq_square power3_eq_cube algebra_simps)
qed

lemma td_driven:
  assumes "0 \<le> tm" "tm < 4"
  shows "timeDerivatives driven_run (uniform (diagonal x)) tm = Inr (uniform (diagonal (x - 2 * x ^ 3 + 1)))"
proof -
  have tau: "0 \<le> tm / 4" "tm / 4 < 1" using assms by simp_all
  obtain tnr2 where i: "interpolateNoise driven_run (tm / 4) = Inr ([[1, 1], [1, 1]], tnr2)"
    using interp_driven[OF tau] by blast
  have p: "maxTime driven_run = Some 4" "(4::real) \<noteq> 0" "noiseType driven_run \<noteq> ''diffusive''"
     "noiseType driven_run \<noteq> ''multiplicative''" "h driven_run \<noteq> 0" "c2 driven_run = 0" "sigma_r driven_run = 1"
    by (simp_all add: driven_run_def driven_def init_def)
  have "timeDerivatives driven_run (uniform (diagonal x)) tm
      = Inr (uniform (reaction driven_run (diagonal x) tm + of_real (sigma_r driven_run * 1) * (1 + \<i>)))"
    using td_uniform[OF p(1,2) i p(3,4,5)] .
  also have "reaction driven_run (diagonal x) tm + of_real (sigma_r driven_run * 1) * (1 + \<i>) = diagonal (x - 2 * x ^ 3 + 1)"
    unfolding reaction_diagonal[OF p(6)] p(7) by (simp add: diagonal_def complex_eq_iff)
  finally show ?thesis .
qed

lemmas eval_driven = rkf45_stages_def w_def Let_def approach4_def approach5_def
  rscale_uniform fadd_uniform fsub_uniform td_driven uniform_inject diagonal_inject

lemma driven_first_pass:
  "\<exists>k1 k2 k3 k4 k5 k6 A B.
      rkf45_stages driven_run 1 (uniform (diagonal 0)) 0 = Inr (k1, k2, k3, k4, k5, k6)
      \<and> approach4 (uniform (diagonal 0)) k1 k3 k4 k5 = uniform (diagonal A)
      \<and> approach5 (uniform (diagonal 0)) k1 k3 k4 k5 k6 = uniform (diagonal B)
      \<and> 1 < A \<and> 19 / 100 < A - B \<and> A - B < 1 / 5"
  by (simp add: eval_driven power_divide del: eq_divide_eq_numeral1 divide_eq_eq_numeral1)

lemma generates_ramp_noise: "generates ramp_noise F n"
  unfolding generates_def ramp_noise_def square_def by (simp add: list_all_iff)

lemma driven_initial:
  "getInitialCondition driven [1 / 2, 1 / 2, 1 / 2, 1 / 2] [1 / 2, 1 / 2, 1 / 2, 1 / 2]
     = (driven\<lparr>a := Some (uniform 0)\<rparr>, Inr (uniform 0))"
  by (simp add: getInitialCondition_def getRandom_def driven_def init_def upt2 uniform_def Let_def)

lemma driven_setup:
  "solveRKF45 driven ramp_noise [1 / 2, 1 / 2, 1 / 2, 1 / 2] [1 / 2, 1 / 2, 1 / 2, 1 / 2] 1 2 S tol
     = (driven_run, rkf45_loop driven_run tol 1 S 0 2 (uniform 0) 0 [uniform 0] [])"
proof -
  have p: "py_int (noiseSpeed driven * 2) = 2" "msize driven = 2"
    by (simp_all add: driven_def init_def py_int_def)
  have raw: "ramp_noise b (2, 2, 2) sd = Inr [[[0, 0], [0, 0]], [[1, 1], [1, 1]]]" for b sd
    by (simp add: ramp_noise_def upt2 numeral_2_eq_2)
  have g: "gradient_axis0 [[[0, 0], [0, 0]], [[1, 1], [1, 1::real]]] = Inr [[[1, 1], [1, 1]], [[1, 1], [1, 1]]]"
    by (simp add: gradient_axis0_def gradient1_def upt2)
  show ?thesis
    unfolding solveRKF45_def driven_initial
    by (simp add: p raw g Let_def driven_run_def) (simp add: driven_def init_def)
qed

lemma np_max_abs_uniform: "np_max_abs (uniform z) = Inr (Some (cmod z))"
  by (simp add: np_max_abs_def uniform_def)

lemma cmod_diagonal: "\<bar>x\<bar> \<le> cmod (diagonal x)" "cmod (diagonal x) \<le> 2 * \<bar>x\<bar>"
proof -
  show "\<bar>x\<bar> \<le> cmod (diagonal x)" using abs_Re_le_cmod[of "diagonal x"] by (simp add: diagonal_def)
  have "cmod (diagonal x) \<le> \<bar>Re (diagonal x)\<bar> + \<bar>Im (diagonal x)\<bar>" by (rule cmod_le)
  then show "cmod (diagonal x) \<le> 2 * \<bar>x\<bar>" by (simp add: diagonal_def)
qed



lemma accepted_step:
  "\<exists>A. rkf45_step driven_run 1 1 (uniform 0) 0 = Inr (uniform (diagonal A), 1) \<and> 1 < A"
proof -
  obtain k1 k2 k3 k4 k5 k6 A B where
    k: "rkf45_stages driven_run 1 (uniform (diagonal 0)) 0 = Inr (k1, k2, k3, k4, k5, k6)"
       "approach4 (uniform (diagonal 0)) k1 k3 k4 k5 = uniform (diagonal A)"
       "approach5 (uniform (diagonal 0)) k1 k3 k4 k5 k6 = uniform (diagonal B)"
       "1 < A" "19 / 100 < A - B" "A - B < 1 / 5"
    using driven_first_pass by blast
  have "\<bar>A - B\<bar> = A - B" using k(5) by simp
  then have e: "\<not> 1 < cmod (diagonal (A - B))" using cmod_diagonal(2)[of "A - B"] k(5,6) by argo
  have "rkf45_step driven_run 1 1 (uniform (diagonal 0)) 0 = Inr (uniform (diagonal A), 1)"
    unfolding rkf45_step_def k(1) using e
    by (simp add: k(2,3) fsub_uniform np_max_abs_uniform)
  then show ?thesis using k(4) by (auto simp add: diagonal_0)
qed














lemma upt10: "[0..<10] = [0, 1, 2, 3, 4, 5, 6, 7, 8, 9]"
  by (simp add: upt_rec)


lemma scenario_preconditions:
  "ic scenario = ''r'' \<and> msize scenario = int 8 \<and> 2 \<le> (8::nat)
      \<and> length (replicate 64 (0 :: real)) = 8 * 8 \<and> length (replicate 64 (3 / 4 :: real)) = 8 * 8
      \<and> py_int (noiseSpeed scenario * real 10) = int 5 \<and> 2 \<le> (5::nat) \<and> generates still_noise 5 8
      \<and> 0 < (1 / 100 :: real) \<and> 0 \<le> (1 / 10 ^ 4 :: real)"
  by (simp add: scenario_frames generates_still_noise) (simp add: scenario_def init_def)

subsection \<open>The trace of a run\<close>

text \<open>
  C2, as stated, fails: \<open>times\<close> receives the elapsed time of every step, saved or not. In
  the scenario of the specification (\<open>ntimes = 10\<close>, save set \<open>{0, 5, 9}\<close>) the run returns
  4 snapshots and 10 times.
\<close>

theorem scenario_times_longer_than_states:
  "trace_lengths (solveRKF45 scenario still_noise (replicate 64 (1 / 2)) (replicate 64 (1 / 2))
       (1 / 100) 10 {0, 5, 9} (1 / 10 ^ 4)) = Some (4, 10)"
proof -
  obtain self' states elapsed where r: "solveRKF45 scenario still_noise (replicate 64 (1 / 2)) (replicate 64 (1 / 2))
       (1 / 100) 10 {0, 5, 9} (1 / 10 ^ 4) = (self', Inr (states, elapsed))"
    using scenario_returns by blast
  from solveRKF45_lengths[OF r] have "length states = 4 \<and> length elapsed = 10"
    unfolding saved_count by simp
  then show ?thesis unfolding r trace_lengths_def by simp
qed

text \<open>
  C2, amended. Every run that returns has \<open>ntimes + 1\<close> fields \<open>fields ! 0, ..., fields ! ntimes\<close>:
  the first is the initial condition (the value that \<open>getInitialCondition\<close> returned, also
  stored in \<open>self.a\<close>), and step \<open>k\<close> of the loop, the function \<open>rkf45_step\<close> applied to
  \<open>fields ! k\<close> at the elapsed time before the step, returns \<open>fields ! (k + 1)\<close> and the
  elapsed time \<open>elapsed ! k\<close>. The snapshots returned are the initial field followed by the
  fields after the steps whose index lies in the save set, in order; the times returned are
  those of all steps, saved or not: \<open>ntimes\<close> of them. The run does return when the
  initial condition is the random one, \<open>msize\<close> and the frame count
  \<open>int(noiseSpeed * ntimes)\<close> are at least 2, the generator returns an array of the
  requested shape, \<open>dt > 0\<close> and \<open>dtTolerace \<ge> 0\<close>.
\<close>

theorem solveRKF45_trace:
  "(solveRKF45 self cNoise u1 u2 dt ntimes S tol = (self', Inr (states, elapsed))
      \<longrightarrow> length states = 1 + card {j \<in> S. j < ntimes} \<and> length elapsed = ntimes
          \<and> (\<exists>fields. length fields = ntimes + 1
                \<and> snd (getInitialCondition self u1 u2) = Inr (fields ! 0)
                \<and> a self' = Some (fields ! 0)
                \<and> (\<forall>k < ntimes. rkf45_step self' tol dt (fields ! k) ((0 # elapsed) ! k)
                                    = Inr (fields ! Suc k, elapsed ! k))
                \<and> states = fields ! 0
                     # map (\<lambda>j. fields ! Suc j) (filter (\<lambda>j. j \<in> S) [0..<ntimes])))
   \<and> (ic self = ''r'' \<and> msize self = int n \<and> 2 \<le> n \<and> length u1 = n * n \<and> length u2 = n * n
        \<and> py_int (noiseSpeed self * real ntimes) = int F \<and> 2 \<le> F \<and> generates cNoise F n
        \<and> 0 < dt \<and> 0 \<le> tol
      \<longrightarrow> (\<exists>self' states elapsed.
             solveRKF45 self cNoise u1 u2 dt ntimes S tol = (self', Inr (states, elapsed))))"
proof (intro conjI impI)
  assume r: "solveRKF45 self cNoise u1 u2 dt ntimes S tol = (self', Inr (states, elapsed))"
  show "length states = 1 + card {j \<in> S. j < ntimes}" "length elapsed = ntimes"
    using solveRKF45_lengths[OF r] by simp_all
  show "\<exists>fields. length fields = ntimes + 1
                \<and> snd (getInitialCondition self u1 u2) = Inr (fields ! 0)
                \<and> a self' = Some (fields ! 0)
                \<and> (\<forall>k < ntimes. rkf45_step self' tol dt (fields ! k) ((0 # elapsed) ! k)
                                    = Inr (fields ! Suc k, elapsed ! k))
                \<and> states = fields ! 0
                     # map (\<lambda>j. fields ! Suc j) (filter (\<lambda>j. j \<in> S) [0..<ntimes])"
    using solveRKF45_steps[OF r] .
next
  assume "ic self = ''r'' \<and> msize self = int n \<and> 2 \<le> n \<and> length u1 = n * n \<and> length u2 = n * n
        \<and> py_int (noiseSpeed self * real ntimes) = int F \<and> 2 \<le> F \<and> generates cNoise F n
        \<and> 0 < dt \<and> 0 \<le> tol"
  then show "\<exists>self' states elapsed.
             solveRKF45 self cNoise u1 u2 dt ntimes S tol = (self', Inr (states, elapsed))"
    using solveRKF45_ok[of self n u1 u2 ntimes F cNoise dt tol S] by blast
qed

theorem solveRKF45_trace_witness:
  "(\<exists>self' states elapsed fields.
       solveRKF45 scenario still_noise (replicate 64 0) (replicate 64 (3 / 4))
          (1 / 100) 10 {0, 5, 9} (1 / 10 ^ 4) = (self', Inr (states, elapsed))
     \<and> length states = 4 \<and> length elapsed = 10 \<and> length fields = 11
     \<and> states = [fields ! 0, fields ! 1, fields ! 6, fields ! 10]
     \<and> rkf45_step self' (1 / 10 ^ 4) (1 / 100) (fields ! 0) 0 = Inr (fields ! 1, elapsed ! 0)
     \<and> rkf45_step self' (1 / 10 ^ 4) (1 / 100) (fields ! 5) (elapsed ! 4) = Inr (fields ! 6, elapsed ! 5)
     \<and> rkf45_step self' (1 / 10 ^ 4) (1 / 100) (fields ! 9) (elapsed ! 8) = Inr (fields ! 10, elapsed ! 9))
   \<and> (\<exists>self' elapsed A.
       solveRKF45 driven ramp_noise [1 / 2, 1 / 2, 1 / 2, 1 / 2] [1 / 2, 1 / 2, 1 / 2, 1 / 2] 1 2 {0} 1
          = (self', Inr ([uniform 0, uniform (diagonal A)], elapsed))
     \<and> 1 < A \<and> elapsed ! 0 = 1)"
proof (rule conjI)
  obtain self' states elapsed where r: "solveRKF45 scenario still_noise (replicate 64 0) (replicate 64 (3 / 4))
       (1 / 100) 10 {0, 5, 9} (1 / 10 ^ 4) = (self', Inr (states, elapsed))"
    using solveRKF45_trace [of scenario still_noise "replicate 64 0" "replicate 64 (3 / 4)"
        "1 / 100" 10 "{0, 5, 9}" "1 / 10 ^ 4" _ _ _ 8 5] scenario_preconditions by blast
  from solveRKF45_trace [of scenario still_noise "replicate 64 0" "replicate 64 (3 / 4)"
        "1 / 100" 10 "{0, 5, 9}" "1 / 10 ^ 4" self' states elapsed 8 5] r
  obtain fields where f: "length states = 1 + card {j \<in> {0, 5, 9}. j < (10::nat)}" "length elapsed = 10"
     "length fields = 10 + 1"
     "\<forall>k < 10. rkf45_step self' (1 / 10 ^ 4) (1 / 100) (fields ! k) ((0 # elapsed) ! k)
                                    = Inr (fields ! Suc k, elapsed ! k)"
     "states = fields ! 0 # map (\<lambda>j. fields ! Suc j) (filter (\<lambda>j. j \<in> {0, 5, 9}) [0..<10])"
    by blast
  have l: "length states = 4" using f(1) unfolding saved_count by simp
  have s: "states = [fields ! 0, fields ! 1, fields ! 6, fields ! 10]"
    using f(5) unfolding upt10 by simp
  have k0: "rkf45_step self' (1 / 10 ^ 4) (1 / 100) (fields ! 0) 0 = Inr (fields ! 1, elapsed ! 0)"
    using f(4)[rule_format, of 0] by simp
  have k5: "rkf45_step self' (1 / 10 ^ 4) (1 / 100) (fields ! 5) (elapsed ! 4) = Inr (fields ! 6, elapsed ! 5)"
    using f(4)[rule_format, of 5] by simp
  have k9: "rkf45_step self' (1 / 10 ^ 4) (1 / 100) (fields ! 9) (elapsed ! 8) = Inr (fields ! 10, elapsed ! 9)"
    using f(4)[rule_format, of 9] by simp
  show "\<exists>self' states elapsed fields.
       solveRKF45 scenario still_noise (replicate 64 0) (replicate 64 (3 / 4))
          (1 / 100) 10 {0, 5, 9} (1 / 10 ^ 4) = (self', Inr (states, elapsed))
     \<and> length states = 4 \<and> length elapsed = 10 \<and> length fields = 11
     \<and> states = [fields ! 0, fields ! 1, fields ! 6, fields ! 10]
     \<and> rkf45_step self' (1 / 10 ^ 4) (1 / 100) (fields ! 0) 0 = Inr (fields ! 1, elapsed ! 0)
     \<and> rkf45_step self' (1 / 10 ^ 4) (1 / 100) (fields ! 5) (elapsed ! 4) = Inr (fields ! 6, elapsed ! 5)
     \<and> rkf45_step self' (1 / 10 ^ 4) (1 / 100) (fields ! 9) (elapsed ! 8) = Inr (fields ! 10, elapsed ! 9)"
    using r l f(2,3) s k0 k5 k9 by (intro exI[of _ self'] exI[of _ states] exI[of _ elapsed] exI[of _ fields]) simp
next
  let ?u = "[1 / 2, 1 / 2, 1 / 2, 1 / 2 :: real]"
  have pre: "ic driven = ''r'' \<and> msize driven = int 2 \<and> 2 \<le> (2::nat)
      \<and> length ?u = 2 * 2 \<and> length ?u = 2 * 2
      \<and> py_int (noiseSpeed driven * real 2) = int 2 \<and> 2 \<le> (2::nat) \<and> generates ramp_noise 2 2
      \<and> 0 < (1 :: real) \<and> 0 \<le> (1 :: real)"
    by (simp add: generates_ramp_noise) (simp add: driven_def init_def py_int_def)
  obtain self' states elapsed where r: "solveRKF45 driven ramp_noise ?u ?u 1 2 {0} 1 = (self', Inr (states, elapsed))"
    using solveRKF45_trace [of driven ramp_noise ?u ?u 1 2 "{0}" 1 _ _ _ 2 2] pre by blast
  have self': "self' = driven_run" using r unfolding driven_setup by simp
  from solveRKF45_trace [of driven ramp_noise ?u ?u 1 2 "{0}" 1 self' states elapsed 2 2] r
  obtain fields where f: "snd (getInitialCondition driven ?u ?u) = Inr (fields ! 0)"
     "\<forall>k < 2. rkf45_step self' 1 1 (fields ! k) ((0 # elapsed) ! k) = Inr (fields ! Suc k, elapsed ! k)"
     "states = fields ! 0 # map (\<lambda>j. fields ! Suc j) (filter (\<lambda>j. j \<in> {0}) [0..<2])"
    by blast
  have f0: "fields ! 0 = uniform 0" using f(1) unfolding driven_initial by simp
  have "rkf45_step driven_run 1 1 (uniform 0) 0 = Inr (fields ! 1, elapsed ! 0)"
    using f(2)[rule_format, of 0] unfolding self' f0 by simp
  then obtain A where A: "fields ! 1 = uniform (diagonal A)" "elapsed ! 0 = 1" "1 < A"
    using accepted_step by auto
  have "states = [uniform 0, uniform (diagonal A)]" using f(3) unfolding upt2 f0 A(1)[symmetric] by simp
  then show "\<exists>self' elapsed A.
       solveRKF45 driven ramp_noise ?u ?u 1 2 {0} 1
          = (self', Inr ([uniform 0, uniform (diagonal A)], elapsed))
     \<and> 1 < A \<and> elapsed ! 0 = 1"
    using r A(2,3) by blast
qed

text \<open>
  C3, as stated, fails: nothing checks the configuration. An object with \<open>noiseSpeed = 2\<close>,
  outside \<open>(0, 1]\<close>, is accepted, and its run of two steps returns one snapshot and two
  times.
\<close>

theorem fast_noise_accepted:
  "noiseSpeed fast_noise = 2
   \<and> trace_lengths (solveRKF45 fast_noise still_noise (replicate 4 (1 / 2)) (replicate 4 (1 / 2))
        (1 / 100) 2 {} (1 / 10 ^ 4)) = Some (1, 2)"
proof -
  obtain self' states elapsed where r: "solveRKF45 fast_noise still_noise (replicate 4 (1 / 2)) (replicate 4 (1 / 2))
       (1 / 100) 2 {} (1 / 10 ^ 4) = (self', Inr (states, elapsed))"
    using fast_noise_returns by blast
  from solveRKF45_lengths[OF r] have "length states = 1 \<and> length elapsed = 2" by simp
  then show ?thesis unfolding r trace_lengths_def by (simp add: fast_noise_def init_def)
qed

text \<open>
  C3, amended. \<open>__init__\<close> stores \<open>msize\<close>, \<open>ic\<close> and \<open>noiseSpeed\<close> as given. With the random
  initial condition and a generator that meets its contract: whatever \<open>noiseSpeed\<close> is, the
  run returns when \<open>msize\<close> and the frame count are at least 2 (\<open>dt > 0\<close>,
  \<open>dtTolerace \<ge> 0\<close>); and when the frame count or \<open>msize\<close> is 0 or 1 the run raises
  \<open>ValueError\<close>, in \<open>np.gradient\<close>, after the initial condition and the noise array have
  been generated and stored in \<open>self.a\<close> and \<open>self.nr2\<close>.
\<close>

theorem configuration_unchecked:
  "msize (init c1' c2' h' m i s ns nt na) = m
   \<and> ic (init c1' c2' h' m i s ns nt na) = i
   \<and> noiseSpeed (init c1' c2' h' m i s ns nt na) = ns
   \<and> (ic self = ''r'' \<and> msize self = int n \<and> 2 \<le> n \<and> length u1 = n * n \<and> length u2 = n * n
        \<and> py_int (noiseSpeed self * real ntimes) = int F \<and> 2 \<le> F \<and> generates cNoise F n
        \<and> 0 < dt \<and> 0 \<le> tol
      \<longrightarrow> (\<exists>self' states elapsed.
             solveRKF45 self cNoise u1 u2 dt ntimes S tol = (self', Inr (states, elapsed))))
   \<and> (ic self = ''r'' \<and> msize self = int n \<and> length u1 = n * n \<and> length u2 = n * n
        \<and> py_int (noiseSpeed self * real ntimes) = int F \<and> (F < 2 \<or> n < 2) \<and> generates cNoise F n
      \<longrightarrow> (\<exists>self' f0 raw.
             solveRKF45 self cNoise u1 u2 dt ntimes S tol = (self', Inl ValueError)
             \<and> a self' = Some f0 \<and> nr2 self' = Some raw))"
proof (intro conjI impI)
  show "msize (init c1' c2' h' m i s ns nt na) = m" "ic (init c1' c2' h' m i s ns nt na) = i"
    "noiseSpeed (init c1' c2' h' m i s ns nt na) = ns"
    by (simp_all add: init_def)
next
  assume "ic self = ''r'' \<and> msize self = int n \<and> 2 \<le> n \<and> length u1 = n * n \<and> length u2 = n * n
        \<and> py_int (noiseSpeed self * real ntimes) = int F \<and> 2 \<le> F \<and> generates cNoise F n
        \<and> 0 < dt \<and> 0 \<le> tol"
  then show "\<exists>self' states elapsed.
             solveRKF45 self cNoise u1 u2 dt ntimes S tol = (self', Inr (states, elapsed))"
    using solveRKF45_ok[of self n u1 u2 ntimes F cNoise dt tol S] by blast
next
  assume "ic self = ''r'' \<and> msize self = int n \<and> length u1 = n * n \<and> length u2 = n * n
        \<and> py_int (noiseSpeed self * real ntimes) = int F \<and> (F < 2 \<or> n < 2) \<and> generates cNoise F n"
  then show "\<exists>self' f0 raw.
             solveRKF45 self cNoise u1 u2 dt ntimes S tol = (self', Inl ValueError)
             \<and> a self' = Some f0 \<and> nr2 self' = Some raw"
    using solveRKF45_small[of self n u1 u2 ntimes F cNoise dt S tol] by blast
qed

theorem configuration_unchecked_witness:
  "noiseSpeed (init 1 1 1 2 ''r'' 0 2 ''additive'' None) = 2
   \<and> (\<exists>self' states elapsed. solveRKF45 fast_noise still_noise (replicate 4 (1 / 2)) (replicate 4 (1 / 2))
          (1 / 100) 2 {} (1 / 10 ^ 4) = (self', Inr (states, elapsed)))
   \<and> (\<exists>self' f0 raw. solveRKF45 coarse_grid still_noise (replicate 4 (1 / 2)) (replicate 4 (1 / 2))
          (1 / 100) 1 {} (1 / 10 ^ 4) = (self', Inl ValueError)
          \<and> a self' = Some f0 \<and> nr2 self' = Some raw)"
proof -
  have p1: "ic fast_noise = ''r'' \<and> msize fast_noise = int 2 \<and> 2 \<le> (2::nat)
      \<and> length (replicate 4 (1 / 2 :: real)) = 2 * 2 \<and> length (replicate 4 (1 / 2 :: real)) = 2 * 2
      \<and> py_int (noiseSpeed fast_noise * real 2) = int 4 \<and> 2 \<le> (4::nat) \<and> generates still_noise 4 2
      \<and> 0 < (1 / 100 :: real) \<and> 0 \<le> (1 / 10 ^ 4 :: real)"
    by (simp add: generates_still_noise) (simp add: fast_noise_def init_def py_int_def)
  have p2: "ic coarse_grid = ''r'' \<and> msize coarse_grid = int 2
      \<and> length (replicate 4 (1 / 2 :: real)) = 2 * 2 \<and> length (replicate 4 (1 / 2 :: real)) = 2 * 2
      \<and> py_int (noiseSpeed coarse_grid * real 1) = int 1 \<and> ((1::nat) < 2 \<or> (2::nat) < 2)
      \<and> generates still_noise 1 2"
    by (simp add: generates_still_noise) (simp add: coarse_grid_def init_def py_int_def)
  note t1 = configuration_unchecked [of 1 1 1 2 "''r''" 0 2 "''additive''" None fast_noise 2
       "replicate 4 (1 / 2)" "replicate 4 (1 / 2)" 2 4 still_noise "1 / 100" "1 / 10 ^ 4" "{}"]
  note t2 = configuration_unchecked [of 1 1 1 2 "''r''" 0 2 "''additive''" None coarse_grid 2
       "replicate 4 (1 / 2)" "replicate 4 (1 / 2)" 1 1 still_noise "1 / 100" "1 / 10 ^ 4" "{}"]
  show ?thesis using t1 t2 p1 p2 by blast
qed

subsection \<open>Interpolation at a frame time, with rounding\<close>

lemma fl_eval:
  assumes "2 powr (of_int e) \<le> \<bar>x\<bar>" "\<bar>x\<bar> < 2 powr (of_int e + 1)"
  shows "fl x = of_int (round_half_even (x / 2 powr (of_int e - 52))) * 2 powr (of_int e - 52)"
proof -
  have "(0::real) < 2 powr (of_int e)" by simp
  then have pos: "0 < \<bar>x\<bar>" using assms(1) by linarith
  then have nz: "x \<noteq> 0" by simp
  have "\<lfloor>log 2 \<bar>x\<bar>\<rfloor> = e" using pos assms
    by (subst floor_log_eq_powr_iff) simp_all
  then show ?thesis unfolding fl_def Let_def using nz by simp
qed

lemma rhe_down: "of_int k \<le> x \<Longrightarrow> x < of_int k + 1 / 2 \<Longrightarrow> round_half_even x = k"
proof -
  assume a: "of_int k \<le> x" "x < of_int k + 1 / 2"
  have "\<lfloor>x\<rfloor> = k" using a by linarith
  then show ?thesis unfolding round_half_even_def Let_def using a by simp
qed

lemma rhe_up: "of_int k + 1 / 2 < x \<Longrightarrow> x < of_int k + 1 \<Longrightarrow> round_half_even x = k + 1"
proof -
  assume a: "of_int k + 1 / 2 < x" "x < of_int k + 1"
  have "\<lfloor>x\<rfloor> = k" using a by linarith
  then show ?thesis unfolding round_half_even_def Let_def using a by simp
qed

lemma pneg: "(2::real) powr (- real k) = 1 / 2 ^ k"
  by (simp add: powr_minus powr_realpow inverse_eq_divide)

lemma fl_small:
  assumes "1 / 2 ^ Suc n \<le> \<bar>x\<bar>" "\<bar>x\<bar> < 1 / 2 ^ n"
  shows "fl x = of_int (round_half_even (x * 2 ^ (n + 53))) / 2 ^ (n + 53)"
proof -
  have e1: "real_of_int (- int (Suc n)) = - real (Suc n)" by simp
  have e2: "real_of_int (- int (Suc n)) + 1 = - real n" by simp
  have e3: "real_of_int (- int (Suc n)) - 52 = - real (n + 53)" by simp
  have lo: "2 powr (of_int (- int (Suc n))) \<le> \<bar>x\<bar>" unfolding e1 pneg using assms(1) .
  have hi: "\<bar>x\<bar> < 2 powr (of_int (- int (Suc n)) + 1)" unfolding e2 pneg using assms(2) .
  show ?thesis using fl_eval[OF lo hi] unfolding e3 pneg by simp
qed

lemma fl_49: "fl (1 / 49) = 5882252574524729 / 2 ^ 58"
proof -
  have r: "round_half_even (1 / 49 * (2::real) ^ (5 + 53)) = 5882252574524729"
    by (rule rhe_down) simp_all
  have "fl (1 / 49) = of_int (round_half_even (1 / 49 * 2 ^ (5 + 53))) / 2 ^ (5 + 53)"
    by (rule fl_small) simp_all
  then show ?thesis unfolding r by simp
qed

lemma fl_49_times_49: "fl (49 * (5882252574524729 / 2 ^ 58)) = 9007199254740991 / 2 ^ 53"
proof -
  have r: "round_half_even (49 * (5882252574524729 / 2 ^ 58) * (2::real) ^ (0 + 53)) = 9007199254740991"
    by (rule rhe_down) simp_all
  have "fl (49 * (5882252574524729 / 2 ^ 58))
      = of_int (round_half_even (49 * (5882252574524729 / 2 ^ 58) * 2 ^ (0 + 53))) / 2 ^ (0 + 53)"
    by (rule fl_small) simp_all
  then show ?thesis unfolding r by simp
qed

lemma fl_tiny: "fl (1 / 10 ^ 15) = 5070602400912918 / 2 ^ 102"
proof -
  have r: "round_half_even (1 / 10 ^ 15 * (2::real) ^ (49 + 53)) = 5070602400912917 + 1"
    by (rule rhe_up) simp_all
  have "fl (1 / 10 ^ 15) = of_int (round_half_even (1 / 10 ^ 15 * 2 ^ (49 + 53))) / 2 ^ (49 + 53)"
    by (rule fl_small) simp_all
  then show ?thesis unfolding r by simp
qed

lemma fl_tau: "fl (5882252574524729 / 2 ^ 58) = 5882252574524729 / 2 ^ 58"
  "fl (- (5882252574524729 / 2 ^ 58)) = - (5882252574524729 / 2 ^ 58)"
proof -
  have r: "round_half_even (5882252574524729 / 2 ^ 58 * (2::real) ^ (5 + 53)) = 5882252574524729"
    by (rule rhe_down) simp_all
  have "fl (5882252574524729 / 2 ^ 58)
     = of_int (round_half_even (5882252574524729 / 2 ^ 58 * 2 ^ (5 + 53))) / 2 ^ (5 + 53)"
    by (rule fl_small) simp_all
  then show "fl (5882252574524729 / 2 ^ 58) = 5882252574524729 / 2 ^ 58" unfolding r by simp
  have r': "round_half_even (- (5882252574524729 / 2 ^ 58) * (2::real) ^ (5 + 53)) = - 5882252574524729"
    by (rule rhe_down) simp_all
  have "fl (- (5882252574524729 / 2 ^ 58))
     = of_int (round_half_even (- (5882252574524729 / 2 ^ 58) * 2 ^ (5 + 53))) / 2 ^ (5 + 53)"
    by (rule fl_small) simp_all
  then show "fl (- (5882252574524729 / 2 ^ 58)) = - (5882252574524729 / 2 ^ 58)" unfolding r' by simp
qed

lemma fl_zero: "fl 0 = 0" by (simp add: fl_def)

lemma tau49_fl: "fl (1 / 49) = tau49" "fl tau49 = tau49" "fl (- tau49) = - tau49"
  unfolding tau49_def using fl_49 fl_tau by simp_all

lemma tau49_pos: "0 < tau49" unfolding tau49_def by simp

lemma frame_index_f64: "\<lfloor>fl (49 * tau49)\<rfloor> = 0" "\<lceil>fl (49 * tau49)\<rceil> = 1"
  unfolding tau49_def fl_49_times_49 by (simp_all add: ceiling_eq_iff)

lemma far_f64: "\<not> \<bar>fl (0 - tau49)\<bar> < fl (1 / 10 ^ 15)"
proof -
  have "fl (1 / 10 ^ 15) \<le> tau49" unfolding fl_tiny tau49_def by simp
  then show ?thesis using tau49_pos by (simp add: tau49_fl)
qed

lemma linspace_f64_50:
  "linspace_f64 50 ! 0 = 0" "linspace_f64 50 ! 1 = tau49" "length (linspace_f64 50) = 50"
proof -
  have s: "fl (1 / real (50 - 1)) = tau49" using tau49_fl(1) by simp
  show "linspace_f64 50 ! 0 = 0" unfolding linspace_f64_def by (simp add: fl_zero)
  have "linspace_f64 50 ! 1 = fl (real 1 * fl (1 / real (50 - 1)))" unfolding linspace_f64_def by simp
  then show "linspace_f64 50 ! 1 = tau49" unfolding s by (simp add: tau49_fl)
  show "length (linspace_f64 50) = 50" unfolding linspace_f64_def by simp
qed

lemma blend_f64_cell: "blend_f64 0 tau49 tau49 [[0]] [[2]] = [[0]]"
  unfolding blend_f64_def by (simp add: tau49_fl fl_zero)

text \<open>
  C7. In exact arithmetic \<open>interpolateNoise\<close> at the time \<open>k / (frames - 1)\<close> returns frame
  \<open>k\<close> of both views (lemma \<open>interp_at_frame\<close>). In binary64 arithmetic it need not: with
  fifty frames and the time \<open>1/49\<close> of frame 1, the product \<open>49 * (1/49)\<close> rounds to
  \<open>1 - 2^-53\<close>, the bracketing frames are 0 and 1, the weight \<open>|t1 - time| / |t2 - t1|\<close> of
  frame 0 is 1 and that of frame 1 is 0, and the call returns frame 0 (value 0) instead of
  frame 1 (value 2).
\<close>

theorem interpolateNoise_f64_neighbour_frame:
  "interpolateNoise fifty_frames (1 / 49) = Inr ([[2]], [[2]])
   \<and> interpolateNoise_f64 fifty_frames (fl (1 / 49)) = Inr ([[0]], [[0]])"
proof -
  let ?B = "[[0]] # [[2]] # replicate 48 [[0::real]]"
  have b: "nr1 fifty_frames = Some ?B" "nr2 fifty_frames = Some ?B"
    by (simp_all add: fifty_frames_def)
  have len: "length ?B = 50" "of_int (int (length ?B) - 1) = (49::real)" by simp_all
  have ix: "py_index (linspace_f64 50) 0 = Inr 0" "py_index (linspace_f64 50) 1 = Inr tau49"
    "py_index ?B 0 = Inr [[0]]" "py_index ?B 1 = Inr [[2]]"
    using linspace_f64_50 by (simp_all add: py_index_def)
  have "interpolateNoise_f64 fifty_frames (fl (1 / 49)) = Inr ([[0]], [[0]])"
    unfolding interpolateNoise_f64_def b option.case Let_def len tau49_fl
    using far_f64 by (simp add: frame_index_f64 ix blend_f64_cell)
  moreover have "interpolateNoise fifty_frames (1 / 49) = Inr ([[2]], [[2]])"
    using interp_at_frame [of fifty_frames ?B ?B 1] b by simp
  ultimately show ?thesis by simp
qed

subsection \<open>The elapsed time\<close>


























end
